theory Spec2Isabelle
  imports Main
begin

section \<open>Regular expressions as used by \<^verbatim>\<open>routing.py\<close>\<close>

text \<open>
  The patterns of \<^verbatim>\<open>routing.py\<close> use a small fragment of Python's \<^verbatim>\<open>re\<close>
  syntax: literals, the dot, character classes given by ranges, the lazy star \<^verbatim>\<open>.*?\<close>,
  the greedy star, the greedy bounded repetition \<^verbatim>\<open>{1,64}\<close>, named groups and the
  anchor \<^verbatim>\<open>$\<close>. A character class is a list of inclusive ranges compared by code
  point; the dot is every character but the newline (no \<^verbatim>\<open>DOTALL\<close> flag is set).
  Strings are lists of 8-bit characters; the patterns tell apart only ASCII characters.
\<close>

datatype charset =
    AnyChar
  | InSet "(char \<times> char) list"

fun in_charset :: "charset \<Rightarrow> char \<Rightarrow> bool" where
  "in_charset AnyChar c = (c \<noteq> CHR 0x0A)"
| "in_charset (InSet rs) c =
     list_ex (\<lambda>(lo, hi). (of_char lo :: nat) \<le> of_char c \<and> (of_char c :: nat) \<le> of_char hi) rs"

datatype regex =
    Lit string
  | LazyStar charset
  | Star charset
  | Repeat charset nat nat
  | Group string regex
  | EndAnchor
  | Seq regex regex

text \<open>
  The matcher is a backtracking one, as Python's: every construct maps a state (the rest of
  the subject and the groups captured so far) to the list of states it can leave behind, in
  the order in which backtracking tries them. The lazy star tries the shortest repetition
  first, the greedy ones the longest.
\<close>

type_synonym groups = "(string \<times> string) list"

fun lazy_splits :: "charset \<Rightarrow> string \<Rightarrow> string list" where
  "lazy_splits cs [] = [[]]"
| "lazy_splits cs (c # s) = (c # s) # (if in_charset cs c then lazy_splits cs s else [])"

fun greedy_splits :: "charset \<Rightarrow> string \<Rightarrow> string list" where
  "greedy_splits cs [] = [[]]"
| "greedy_splits cs (c # s) = (if in_charset cs c then greedy_splits cs s else []) @ [c # s]"

fun repeat_splits :: "charset \<Rightarrow> nat \<Rightarrow> nat \<Rightarrow> string \<Rightarrow> string list" where
  "repeat_splits cs lo hi [] = (if lo = 0 then [[]] else [])"
| "repeat_splits cs lo hi (c # s) =
     (if 0 < hi \<and> in_charset cs c then repeat_splits cs (lo - 1) (hi - 1) s else [])
     @ (if lo = 0 then [c # s] else [])"

text \<open>
  \<^verbatim>\<open>$\<close> without \<^verbatim>\<open>MULTILINE\<close> holds at the end of the subject and just before a
  newline that is the subject's last character.
\<close>

fun run :: "regex \<Rightarrow> string \<times> groups \<Rightarrow> (string \<times> groups) list" where
  "run (Lit l) (s, g) = (if take (length l) s = l then [(drop (length l) s, g)] else [])"
| "run (LazyStar cs) (s, g) = map (\<lambda>s'. (s', g)) (lazy_splits cs s)"
| "run (Star cs) (s, g) = map (\<lambda>s'. (s', g)) (greedy_splits cs s)"
| "run (Repeat cs lo hi) (s, g) = map (\<lambda>s'. (s', g)) (repeat_splits cs lo hi s)"
| "run (Group name r) (s, g) =
     map (\<lambda>(s', g'). (s', (name, take (length s - length s') s) # g')) (run r (s, g))"
| "run EndAnchor (s, g) = (if s = [] \<or> s = [CHR 0x0A] then [(s, g)] else [])"
| "run (Seq r1 r2) st = concat (map (run r2) (run r1 st))"

fun seqs :: "regex list \<Rightarrow> regex" where
  "seqs [] = Lit []"
| "seqs [r] = r"
| "seqs (r # rs) = Seq r (seqs rs)"

text \<open>
  \<^verbatim>\<open>pattern.match(path)\<close> anchors at the start of the subject, need not consume all of
  it, and returns the first success of the backtracking search; what the callers read of
  the match object is its \<^verbatim>\<open>groupdict()\<close>. \<^verbatim>\<open>None\<close> is no match.
\<close>

definition re_match :: "regex \<Rightarrow> string \<Rightarrow> groups option" where
  "re_match r s = (case run r (s, []) of [] \<Rightarrow> None | st # _ \<Rightarrow> Some (snd st))"

definition A_z :: charset where
  "A_z = InSet [(CHR ''A'', CHR ''z'')]"

definition id_chars :: charset where
  "id_chars = InSet [(CHR ''A'', CHR ''Z''), (CHR ''a'', CHR ''z''), (CHR ''0'', CHR ''9''),
                     (CHR ''-'', CHR ''-''), (CHR ''.'', CHR ''.'')]"

definition METADATA_PATH_REGEX :: regex where
  "METADATA_PATH_REGEX = seqs [LazyStar AnyChar, Lit ''/metadata'']"

definition READ_PATH_REGEX :: regex where
  "READ_PATH_REGEX = seqs [LazyStar AnyChar, Lit ''/'', Group ''resource_type'' (Star A_z),
     Lit ''/'', Group ''resource_id'' (Repeat id_chars 1 64), EndAnchor]"

definition VREAD_PATH_REGEX :: regex where
  "VREAD_PATH_REGEX = seqs [LazyStar AnyChar, Lit ''/'', Group ''resource_type'' (Star A_z),
     Lit ''/'', Group ''resource_id'' (Repeat id_chars 1 64), Lit ''/_history/'',
     Group ''version_id'' (Repeat id_chars 1 64), EndAnchor]"

definition CREATE_PATH_REGEX :: regex where
  "CREATE_PATH_REGEX = seqs [LazyStar AnyChar, Lit ''/'', Group ''resource_type'' (Star A_z),
     EndAnchor]"

definition SEARCH_TYPE_GET_PATH_REGEX :: regex where
  "SEARCH_TYPE_GET_PATH_REGEX = seqs [LazyStar AnyChar, Lit ''/'',
     Group ''resource_type'' (Star A_z), EndAnchor]"

definition SEARCH_TYPE_POST_PATH_REGEX :: regex where
  "SEARCH_TYPE_POST_PATH_REGEX = seqs [LazyStar AnyChar, Lit ''/'',
     Group ''resource_type'' (Star A_z), Lit ''/_search'', EndAnchor]"

definition UPDATE_PATH_REGEX :: regex where
  "UPDATE_PATH_REGEX = seqs [LazyStar AnyChar, Lit ''/'', Group ''resource_type'' (Star A_z),
     Lit ''/'', Group ''resource_id'' (Repeat id_chars 1 64), EndAnchor]"

definition PATCH_PATH_REGEX :: regex where
  "PATCH_PATH_REGEX = seqs [LazyStar AnyChar, Lit ''/'', Group ''resource_type'' (Star A_z),
     Lit ''/'', Group ''resource_id'' (Repeat id_chars 1 64), EndAnchor]"

definition DELETE_PATH_REGEX :: regex where
  "DELETE_PATH_REGEX = seqs [LazyStar AnyChar, Lit ''/'', Group ''resource_type'' (Star A_z),
     Lit ''/'', Group ''resource_id'' (Repeat id_chars 1 64), EndAnchor]"

section \<open>The interaction result\<close>

datatype InteractionType =
  Create | Read | VRead | Update | SearchType | Delete | Capabilities | Patch

record InteractionInfo =
  resource_type :: "string option"
  interaction_type :: "InteractionType option"
  resource_id :: "string option"
  version_id :: "string option"

definition InteractionInfo_empty :: InteractionInfo where
  "InteractionInfo_empty = \<lparr>resource_type = None, interaction_type = None, resource_id = None,
            version_id = None\<rparr>"

text \<open>
  \<^verbatim>\<open>is_resource_type\<close> lives in a module that is not part of the sources at hand; it
  is a parameter of everything that calls it. \<^verbatim>\<open>not resource_type\<close> holds for
  \<^verbatim>\<open>None\<close> and for the empty string.
\<close>

definition InteractionInfo_from_match ::
  "(string \<Rightarrow> bool) \<Rightarrow> groups option \<Rightarrow> InteractionType \<Rightarrow> InteractionInfo option" where
  "InteractionInfo_from_match is_resource_type match it =
     (case match of
        None \<Rightarrow> None
      | Some match_data \<Rightarrow>
          (case map_of match_data ''resource_type'' of
             None \<Rightarrow> None
           | Some rt \<Rightarrow>
               if rt = [] \<or> \<not> is_resource_type rt then None
               else Some \<lparr>resource_type = Some rt, interaction_type = Some it,
                          resource_id = map_of match_data ''resource_id'',
                          version_id = map_of match_data ''version_id''\<rparr>))"

section \<open>The path matchers\<close>

text \<open>
  A matcher returns a result, declines with \<^verbatim>\<open>None\<close>, or raises; the only
  \<^verbatim>\<open>raise\<close> in a concrete matcher is the \<^verbatim>\<open>assert\<close> of the search matcher.
\<close>

datatype error = AssertionError string

type_synonym matcher = "string \<Rightarrow> string \<Rightarrow> error + InteractionInfo option"

definition MetadataPathMatcher_match :: matcher where
  "MetadataPathMatcher_match method path =
     (if method \<noteq> ''GET'' then Inr None
      else if re_match METADATA_PATH_REGEX path = None then Inr None
      else Inr (Some \<lparr>resource_type = None, interaction_type = Some Capabilities,
                      resource_id = None, version_id = None\<rparr>))"

definition CreatePathMatcher_match :: "(string \<Rightarrow> bool) \<Rightarrow> matcher" where
  "CreatePathMatcher_match is_resource_type method path =
     (if method \<noteq> ''POST'' then Inr None
      else Inr (InteractionInfo_from_match is_resource_type (re_match CREATE_PATH_REGEX path) Create))"

definition ReadPathMatcher_match :: "(string \<Rightarrow> bool) \<Rightarrow> matcher" where
  "ReadPathMatcher_match is_resource_type method path =
     (if method \<noteq> ''GET'' then Inr None
      else Inr (InteractionInfo_from_match is_resource_type (re_match READ_PATH_REGEX path) Read))"

definition VReadPathMatcher_match :: "(string \<Rightarrow> bool) \<Rightarrow> matcher" where
  "VReadPathMatcher_match is_resource_type method path =
     (if method \<noteq> ''GET'' then Inr None
      else Inr (InteractionInfo_from_match is_resource_type (re_match VREAD_PATH_REGEX path) VRead))"

definition SearchPathMatcher_match :: "(string \<Rightarrow> bool) \<Rightarrow> matcher" where
  "SearchPathMatcher_match is_resource_type method path =
     (if method \<notin> set [''GET'', ''POST''] then Inr None
      else if method = ''GET'' then
        Inr (InteractionInfo_from_match is_resource_type (re_match SEARCH_TYPE_GET_PATH_REGEX path) SearchType)
      else if method \<noteq> ''POST'' then Inl (AssertionError ''Method should be POST'')
      else
        Inr (InteractionInfo_from_match is_resource_type (re_match SEARCH_TYPE_POST_PATH_REGEX path) SearchType))"

definition UpdatePathMatcher_match :: "(string \<Rightarrow> bool) \<Rightarrow> matcher" where
  "UpdatePathMatcher_match is_resource_type method path =
     (if method \<noteq> ''PUT'' then Inr None
      else Inr (InteractionInfo_from_match is_resource_type (re_match UPDATE_PATH_REGEX path) Update))"

definition PatchPathMatcher_match :: "(string \<Rightarrow> bool) \<Rightarrow> matcher" where
  "PatchPathMatcher_match is_resource_type method path =
     (if method \<noteq> ''PATCH'' then Inr None
      else Inr (InteractionInfo_from_match is_resource_type (re_match PATCH_PATH_REGEX path) Patch))"

definition DeletePathMatcher_match :: "(string \<Rightarrow> bool) \<Rightarrow> matcher" where
  "DeletePathMatcher_match is_resource_type method path =
     (if method \<noteq> ''DELETE'' then Inr None
      else Inr (InteractionInfo_from_match is_resource_type (re_match DELETE_PATH_REGEX path) Delete))"

section \<open>The classifier\<close>

text \<open>
  What \<^verbatim>\<open>parse_fhir_request\<close> reads of the request is its method and the path of
  its URL. The loop returns the first result that is not \<^verbatim>\<open>None\<close> (an
  \<^verbatim>\<open>InteractionInfo\<close> object is always truthy); an exception of a matcher would
  leave the loop and the function.

  The path of a request holds no newline: \<^verbatim>\<open>request.url.path\<close> is a component of
  the URL as \<^verbatim>\<open>urlsplit\<close> splits it, and \<^verbatim>\<open>urlsplit\<close> removes newlines. The
  record does not enforce it; the statements about the path of any request assume it.
\<close>

record Request =
  request_method :: string
  request_url_path :: string

definition matchers :: "(string \<Rightarrow> bool) \<Rightarrow> matcher list" where
  "matchers is_resource_type =
     [MetadataPathMatcher_match,
      ReadPathMatcher_match is_resource_type,
      VReadPathMatcher_match is_resource_type,
      CreatePathMatcher_match is_resource_type,
      SearchPathMatcher_match is_resource_type,
      UpdatePathMatcher_match is_resource_type,
      PatchPathMatcher_match is_resource_type,
      DeletePathMatcher_match is_resource_type]"

fun first_match :: "matcher list \<Rightarrow> string \<Rightarrow> string \<Rightarrow> error + InteractionInfo" where
  "first_match [] method path = Inr InteractionInfo_empty"
| "first_match (matcher # rest) method path =
     (case matcher method path of
        Inl e \<Rightarrow> Inl e
      | Inr None \<Rightarrow> first_match rest method path
      | Inr (Some match) \<Rightarrow> Inr match)"

definition parse_fhir_request ::
  "(string \<Rightarrow> bool) \<Rightarrow> Request option \<Rightarrow> error + InteractionInfo" where
  "parse_fhir_request is_resource_type request =
     (case request of
        None \<Rightarrow> Inr InteractionInfo_empty
      | Some req \<Rightarrow>
          first_match (matchers is_resource_type) (request_method req) (request_url_path req))"

section \<open>Notions used in the statements\<close>

text \<open>The result the metadata matcher builds.\<close>

definition capabilities_info :: InteractionInfo where
  "capabilities_info = \<lparr>resource_type = None, interaction_type = Some Capabilities,
     resource_id = None, version_id = None\<rparr>"

text \<open>
  An id as the specification wants it: 1 to 64 characters of the id class. A result is well
  formed when its ids are, and its resource type is made of characters of the class the
  patterns use for it.
\<close>

definition well_formed_id :: "string \<Rightarrow> bool" where
  "well_formed_id i = (list_all (in_charset id_chars) i \<and> 1 \<le> length i \<and> length i \<le> 64)"

definition well_formed_info :: "InteractionInfo \<Rightarrow> bool" where
  "well_formed_info r =
     ((case resource_id r of None \<Rightarrow> True | Some i \<Rightarrow> well_formed_id i)
    \<and> (case version_id r of None \<Rightarrow> True | Some v \<Rightarrow> well_formed_id v)
    \<and> (case resource_type r of None \<Rightarrow> True | Some t \<Rightarrow> list_all (in_charset A_z) t))"

section \<open>Basic facts about the matchers and the loop\<close>

lemmas matcher_defs = MetadataPathMatcher_match_def ReadPathMatcher_match_def
  VReadPathMatcher_match_def CreatePathMatcher_match_def SearchPathMatcher_match_def
  UpdatePathMatcher_match_def PatchPathMatcher_match_def DeletePathMatcher_match_def

lemma from_match_Some:
  assumes "InteractionInfo_from_match is_rt m it = Some r"
  shows "\<exists>g t. m = Some g \<and> map_of g ''resource_type'' = Some t \<and> t \<noteq> [] \<and> is_rt t \<and>
     r = \<lparr>resource_type = Some t, interaction_type = Some it,
          resource_id = map_of g ''resource_id'', version_id = map_of g ''version_id''\<rparr>"
  using assms unfolding InteractionInfo_from_match_def
  by (auto split: option.splits if_splits)

lemma first_match_Inr:
  assumes "\<forall>f \<in> set ms. \<exists>r. f m p = Inr r"
  shows "\<exists>info. first_match ms m p = Inr info"
  using assms by (induction ms) (auto split: sum.splits option.splits)

lemma first_match_cases:
  assumes "first_match ms m p = Inr r"
  shows "r = InteractionInfo_empty \<or> (\<exists>f \<in> set ms. f m p = Inr (Some r))"
  using assms by (induction ms) (auto split: sum.splits option.splits)

lemma first_match_all_decline:
  assumes "\<forall>f \<in> set ms. f m p = Inr None"
  shows "first_match ms m p = Inr InteractionInfo_empty"
  using assms by (induction ms) auto

lemma matchers_never_raise:
  assumes "f \<in> set (matchers is_rt)"
  shows "\<exists>r. f m p = Inr r"
  using assms unfolding matchers_def matcher_defs by auto

lemma matcher_result:
  assumes "f \<in> set (matchers is_rt)" and "f m p = Inr (Some r)"
  shows "r = capabilities_info \<or>
    (\<exists>t it. resource_type r = Some t \<and> t \<noteq> [] \<and> is_rt t \<and>
       interaction_type r = Some it \<and> it \<noteq> Capabilities)"
  using assms unfolding matchers_def matcher_defs capabilities_info_def
  by (auto split: if_splits dest!: from_match_Some)

lemma parse_result:
  assumes "parse_fhir_request is_rt req = Inr r"
  shows "r = InteractionInfo_empty \<or> r = capabilities_info \<or>
    (\<exists>t it. resource_type r = Some t \<and> t \<noteq> [] \<and> is_rt t \<and>
       interaction_type r = Some it \<and> it \<noteq> Capabilities)"
proof (cases req)
  case None
  with assms show ?thesis by (simp add: parse_fhir_request_def)
next
  case (Some rq)
  with assms
  have "first_match (matchers is_rt) (request_method rq) (request_url_path rq) = Inr r"
    by (simp add: parse_fhir_request_def)
  from first_match_cases[OF this] show ?thesis
    using matcher_result by blast
qed

text \<open>The loop, unrolled for each method: only the matchers that accept the method remain.\<close>

lemma parse_GET:
  "parse_fhir_request is_rt (Some \<lparr>request_method = ''GET'', request_url_path = p\<rparr>) =
     Inr (if re_match METADATA_PATH_REGEX p \<noteq> None then capabilities_info
          else case InteractionInfo_from_match is_rt (re_match READ_PATH_REGEX p) Read of
            Some r \<Rightarrow> r
          | None \<Rightarrow>
             (case InteractionInfo_from_match is_rt (re_match VREAD_PATH_REGEX p) VRead of
                Some r \<Rightarrow> r
              | None \<Rightarrow>
                 (case InteractionInfo_from_match is_rt
                         (re_match SEARCH_TYPE_GET_PATH_REGEX p) SearchType of
                    Some r \<Rightarrow> r
                  | None \<Rightarrow> InteractionInfo_empty)))"
  unfolding parse_fhir_request_def matchers_def matcher_defs capabilities_info_def
  by (simp split: option.splits)

lemma parse_POST:
  "parse_fhir_request is_rt (Some \<lparr>request_method = ''POST'', request_url_path = p\<rparr>) =
     Inr (case InteractionInfo_from_match is_rt (re_match CREATE_PATH_REGEX p) Create of
            Some r \<Rightarrow> r
          | None \<Rightarrow>
             (case InteractionInfo_from_match is_rt
                     (re_match SEARCH_TYPE_POST_PATH_REGEX p) SearchType of
                Some r \<Rightarrow> r
              | None \<Rightarrow> InteractionInfo_empty))"
  unfolding parse_fhir_request_def matchers_def matcher_defs
  by (simp split: option.splits)

lemma parse_PUT:
  "parse_fhir_request is_rt (Some \<lparr>request_method = ''PUT'', request_url_path = p\<rparr>) =
     Inr (case InteractionInfo_from_match is_rt (re_match UPDATE_PATH_REGEX p) Update of
            Some r \<Rightarrow> r | None \<Rightarrow> InteractionInfo_empty)"
  unfolding parse_fhir_request_def matchers_def matcher_defs
  by (simp split: option.splits)

lemma parse_PATCH:
  "parse_fhir_request is_rt (Some \<lparr>request_method = ''PATCH'', request_url_path = p\<rparr>) =
     Inr (case InteractionInfo_from_match is_rt (re_match PATCH_PATH_REGEX p) Patch of
            Some r \<Rightarrow> r | None \<Rightarrow> InteractionInfo_empty)"
  unfolding parse_fhir_request_def matchers_def matcher_defs
  by (simp split: option.splits)

lemma parse_DELETE:
  "parse_fhir_request is_rt (Some \<lparr>request_method = ''DELETE'', request_url_path = p\<rparr>) =
     Inr (case InteractionInfo_from_match is_rt (re_match DELETE_PATH_REGEX p) Delete of
            Some r \<Rightarrow> r | None \<Rightarrow> InteractionInfo_empty)"
  unfolding parse_fhir_request_def matchers_def matcher_defs
  by (simp split: option.splits)

lemma parse_other_method:
  assumes "m \<notin> {''GET'', ''POST'', ''PUT'', ''PATCH'', ''DELETE''}"
  shows "parse_fhir_request is_rt (Some \<lparr>request_method = m, request_url_path = p\<rparr>)
         = Inr InteractionInfo_empty"
  using assms unfolding parse_fhir_request_def matchers_def matcher_defs
  by simp

lemma regexes_equal:
  "PATCH_PATH_REGEX = UPDATE_PATH_REGEX" "DELETE_PATH_REGEX = UPDATE_PATH_REGEX"
  by (simp_all add: PATCH_PATH_REGEX_def DELETE_PATH_REGEX_def UPDATE_PATH_REGEX_def)

lemma vread_path_metadata: "re_match METADATA_PATH_REGEX ''/Patient/123/_history/1'' = None"
  by code_simp

lemma vread_path_read:
  "re_match READ_PATH_REGEX ''/Patient/123/_history/1''
     = Some [(''resource_id'', ''1''), (''resource_type'', ''_history'')]"
  by code_simp

lemma vread_path_vread:
  "re_match VREAD_PATH_REGEX ''/Patient/123/_history/1''
     = Some [(''version_id'', ''1''), (''resource_id'', ''123''), (''resource_type'', ''Patient'')]"
  by code_simp

section \<open>The interaction kind and the three captures\<close>

text \<open>
  C1, as the code has it. A result without an interaction kind has no resource type, no
  resource id and no version id. The converse holds up to the capabilities result: the
  three are all absent exactly when the interaction kind is absent or is
  \<^verbatim>\<open>capabilities\<close>.
\<close>

theorem interaction_type_absent:
  assumes "parse_fhir_request is_resource_type request = Inr info"
  shows "(interaction_type info = None \<longrightarrow>
            resource_type info = None \<and> resource_id info = None \<and> version_id info = None)
       \<and> ((resource_type info = None \<and> resource_id info = None \<and> version_id info = None)
            = (interaction_type info = None \<or> interaction_type info = Some Capabilities))"
  using parse_result[OF assms]
  by (auto simp: InteractionInfo_empty_def capabilities_info_def)

theorem interaction_type_absent_witness:
  "parse_fhir_request (\<lambda>s. s = ''Patient'')
     (Some \<lparr>request_method = ''GET'', request_url_path = ''/Patient/123''\<rparr>)
   = Inr \<lparr>resource_type = Some ''Patient'', interaction_type = Some Read,
          resource_id = Some ''123'', version_id = None\<rparr>
   \<and> ((resource_type \<lparr>resource_type = Some ''Patient'', interaction_type = Some Read,
          resource_id = Some ''123'', version_id = None\<rparr> = None
        \<and> resource_id \<lparr>resource_type = Some ''Patient'', interaction_type = Some Read,
          resource_id = Some ''123'', version_id = None\<rparr> = None
        \<and> version_id \<lparr>resource_type = Some ''Patient'', interaction_type = Some Read,
          resource_id = Some ''123'', version_id = (None :: string option)\<rparr> = None)
      = (interaction_type \<lparr>resource_type = Some ''Patient'', interaction_type = Some Read,
          resource_id = Some ''123'', version_id = None\<rparr> = None
        \<or> interaction_type \<lparr>resource_type = Some ''Patient'', interaction_type = Some Read,
          resource_id = Some ''123'', version_id = None\<rparr> = Some Capabilities))"
proof -
  have h: "parse_fhir_request (\<lambda>s. s = ''Patient'')
     (Some \<lparr>request_method = ''GET'', request_url_path = ''/Patient/123''\<rparr>)
   = Inr \<lparr>resource_type = Some ''Patient'', interaction_type = Some Read,
          resource_id = Some ''123'', version_id = None\<rparr>"
    by code_simp
  from interaction_type_absent[OF h] show ?thesis using h by blast
qed

text \<open>
  The biconditional of C1 as the specification words it fails on the capabilities result:
  the interaction kind is set and the three captures are absent.
\<close>

theorem capabilities_breaks_biconditional:
  "parse_fhir_request (\<lambda>s. s = ''Patient'')
     (Some \<lparr>request_method = ''GET'', request_url_path = ''/metadata''\<rparr>)
   = Inr \<lparr>resource_type = None, interaction_type = Some Capabilities,
          resource_id = None, version_id = None\<rparr>
   \<and> \<not> ((interaction_type \<lparr>resource_type = None, interaction_type = Some Capabilities,
          resource_id = None, version_id = None\<rparr> = None)
        = (resource_type \<lparr>resource_type = None, interaction_type = Some Capabilities,
          resource_id = None, version_id = None\<rparr> = None
         \<and> resource_id \<lparr>resource_type = None, interaction_type = Some Capabilities,
          resource_id = None, version_id = None\<rparr> = None
         \<and> version_id \<lparr>resource_type = None, interaction_type = Some Capabilities,
          resource_id = None, version_id = (None :: string option)\<rparr> = None))"
  by code_simp

section \<open>The resource type is validated\<close>

text \<open>
  C4. Whenever the result of \<^verbatim>\<open>parse_fhir_request\<close> carries a resource type, the
  oracle \<^verbatim>\<open>is_resource_type\<close> holds of that very string.
\<close>

theorem resource_type_validated:
  assumes "parse_fhir_request is_resource_type request = Inr info"
    and "resource_type info = Some s"
  shows "is_resource_type s"
  using parse_result[OF assms(1)] assms(2)
  by (auto simp: InteractionInfo_empty_def capabilities_info_def)

theorem resource_type_validated_witness:
  "parse_fhir_request (\<lambda>s. s = ''Patient'')
     (Some \<lparr>request_method = ''POST'', request_url_path = ''/Patient''\<rparr>)
   = Inr \<lparr>resource_type = Some ''Patient'', interaction_type = Some Create,
          resource_id = None, version_id = None\<rparr>
   \<and> (\<lambda>s. s = ''Patient'') ''Patient''"
proof -
  have h: "parse_fhir_request (\<lambda>s. s = ''Patient'')
     (Some \<lparr>request_method = ''POST'', request_url_path = ''/Patient''\<rparr>)
   = Inr \<lparr>resource_type = Some ''Patient'', interaction_type = Some Create,
          resource_id = None, version_id = None\<rparr>"
    by code_simp
  from resource_type_validated[OF h] show ?thesis using h by simp
qed

section \<open>The version read\<close>

text \<open>
  C5. With an oracle that accepts \<^verbatim>\<open>Patient\<close> and rejects \<^verbatim>\<open>_history\<close>, the
  request \<^verbatim>\<open>GET /Patient/123/_history/1\<close> is a version read of version 1 of
  Patient 123: the read matcher, tried before, declines, and the result is the one of the
  vread matcher.
\<close>

theorem vread_scenario:
  assumes "is_resource_type ''Patient''" and "\<not> is_resource_type ''_history''"
  shows "parse_fhir_request is_resource_type
           (Some \<lparr>request_method = ''GET'', request_url_path = ''/Patient/123/_history/1''\<rparr>)
         = Inr \<lparr>resource_type = Some ''Patient'', interaction_type = Some VRead,
                resource_id = Some ''123'', version_id = Some ''1''\<rparr>
       \<and> ReadPathMatcher_match is_resource_type ''GET'' ''/Patient/123/_history/1'' = Inr None
       \<and> VReadPathMatcher_match is_resource_type ''GET'' ''/Patient/123/_history/1''
         = Inr (Some \<lparr>resource_type = Some ''Patient'', interaction_type = Some VRead,
                resource_id = Some ''123'', version_id = Some ''1''\<rparr>)"
  using assms
  by (simp add: parse_GET ReadPathMatcher_match_def VReadPathMatcher_match_def
      vread_path_metadata vread_path_read vread_path_vread InteractionInfo_from_match_def)

theorem vread_scenario_witness:
  "parse_fhir_request (\<lambda>s. s = ''Patient'')
           (Some \<lparr>request_method = ''GET'', request_url_path = ''/Patient/123/_history/1''\<rparr>)
         = Inr \<lparr>resource_type = Some ''Patient'', interaction_type = Some VRead,
                resource_id = Some ''123'', version_id = Some ''1''\<rparr>"
  using vread_scenario[of "\<lambda>s. s = ''Patient''"] by simp

section \<open>Totality\<close>

text \<open>
  C8. No matcher of the list raises: each returns a result or declines. So
  \<^verbatim>\<open>parse_fhir_request\<close> returns an \<^verbatim>\<open>InteractionInfo\<close> for every oracle and every
  request, present or absent, and when every matcher declines it returns the empty one.
\<close>

theorem parse_fhir_request_total:
  "(\<forall>matcher \<in> set (matchers is_resource_type). \<exists>r. matcher method path = Inr r)
   \<and> (\<exists>info. parse_fhir_request is_resource_type request = Inr info)
   \<and> ((\<forall>matcher \<in> set (matchers is_resource_type). matcher method path = Inr None)
        \<longrightarrow> parse_fhir_request is_resource_type
              (Some \<lparr>request_method = method, request_url_path = path\<rparr>)
            = Inr InteractionInfo_empty)"
proof (intro conjI impI)
  show "\<forall>matcher \<in> set (matchers is_resource_type). \<exists>r. matcher method path = Inr r"
    using matchers_never_raise by blast
  show "\<exists>info. parse_fhir_request is_resource_type request = Inr info"
  proof (cases request)
    case None
    then show ?thesis by (simp add: parse_fhir_request_def)
  next
    case (Some req)
    have "\<forall>f \<in> set (matchers is_resource_type).
            \<exists>r. f (request_method req) (request_url_path req) = Inr r"
      using matchers_never_raise by blast
    from first_match_Inr[OF this] Some show ?thesis
      by (simp add: parse_fhir_request_def)
  qed
next
  assume "\<forall>matcher \<in> set (matchers is_resource_type). matcher method path = Inr None"
  from first_match_all_decline[OF this]
  show "parse_fhir_request is_resource_type
          (Some \<lparr>request_method = method, request_url_path = path\<rparr>)
        = Inr InteractionInfo_empty"
    by (simp add: parse_fhir_request_def)
qed

theorem parse_fhir_request_total_witness:
  "(\<exists>info. parse_fhir_request (\<lambda>s. s = ''Patient'')
      (Some \<lparr>request_method = ''HEAD'', request_url_path = ''/Patient/123''\<rparr>) = Inr info)
   \<and> parse_fhir_request (\<lambda>s. s = ''Patient'')
      (Some \<lparr>request_method = ''HEAD'', request_url_path = ''/Patient/123''\<rparr>)
     = Inr InteractionInfo_empty"
proof -
  have h: "\<forall>matcher \<in> set (matchers (\<lambda>s. s = ''Patient'')).
             matcher ''HEAD'' ''/Patient/123'' = Inr None"
    by (simp add: matchers_def matcher_defs)
  show ?thesis
    using parse_fhir_request_total[of "\<lambda>s. s = ''Patient''" "''HEAD''" "''/Patient/123''"
        "Some \<lparr>request_method = ''HEAD'', request_url_path = ''/Patient/123''\<rparr>"] h
    by blast
qed

section \<open>Update, patch and delete\<close>

text \<open>
  C9. On every path, the requests \<^verbatim>\<open>PUT\<close>, \<^verbatim>\<open>PATCH\<close> and \<^verbatim>\<open>DELETE\<close> are
  classified alike: one has a result with a resource type \<open>t\<close> and the captures \<open>i\<close>,
  \<open>v\<close> of kind update exactly when the next has the result with the same captures of kind
  patch, and that one exactly when the third has it of kind delete. These are all the
  results there are: a result of \<^verbatim>\<open>PUT\<close> that is not the empty one has a resource
  type and the kind update, and likewise for the two others.
\<close>

theorem update_patch_delete_agree:
  "((parse_fhir_request is_resource_type
        (Some \<lparr>request_method = ''PUT'', request_url_path = p\<rparr>)
      = Inr \<lparr>resource_type = Some t, interaction_type = Some Update,
             resource_id = i, version_id = v\<rparr>)
    = (parse_fhir_request is_resource_type
        (Some \<lparr>request_method = ''PATCH'', request_url_path = p\<rparr>)
      = Inr \<lparr>resource_type = Some t, interaction_type = Some Patch,
             resource_id = i, version_id = v\<rparr>))
  \<and> ((parse_fhir_request is_resource_type
        (Some \<lparr>request_method = ''PATCH'', request_url_path = p\<rparr>)
      = Inr \<lparr>resource_type = Some t, interaction_type = Some Patch,
             resource_id = i, version_id = v\<rparr>)
    = (parse_fhir_request is_resource_type
        (Some \<lparr>request_method = ''DELETE'', request_url_path = p\<rparr>)
      = Inr \<lparr>resource_type = Some t, interaction_type = Some Delete,
             resource_id = i, version_id = v\<rparr>))
  \<and> (\<forall>r. parse_fhir_request is_resource_type
        (Some \<lparr>request_method = ''PUT'', request_url_path = p\<rparr>) = Inr r
      \<longrightarrow> r = InteractionInfo_empty
          \<or> (interaction_type r = Some Update \<and> resource_type r \<noteq> None))
  \<and> (\<forall>r. parse_fhir_request is_resource_type
        (Some \<lparr>request_method = ''PATCH'', request_url_path = p\<rparr>) = Inr r
      \<longrightarrow> r = InteractionInfo_empty
          \<or> (interaction_type r = Some Patch \<and> resource_type r \<noteq> None))
  \<and> (\<forall>r. parse_fhir_request is_resource_type
        (Some \<lparr>request_method = ''DELETE'', request_url_path = p\<rparr>) = Inr r
      \<longrightarrow> r = InteractionInfo_empty
          \<or> (interaction_type r = Some Delete \<and> resource_type r \<noteq> None))"
  by (auto simp: parse_PUT parse_PATCH parse_DELETE regexes_equal
        InteractionInfo_from_match_def InteractionInfo_empty_def split: option.splits)

theorem update_patch_delete_agree_witness:
  "((parse_fhir_request (\<lambda>s. s = ''Patient'')
        (Some \<lparr>request_method = ''PUT'', request_url_path = ''/Patient/123''\<rparr>)
      = Inr \<lparr>resource_type = Some ''Patient'', interaction_type = Some Update,
             resource_id = Some ''123'', version_id = None\<rparr>)
    = (parse_fhir_request (\<lambda>s. s = ''Patient'')
        (Some \<lparr>request_method = ''PATCH'', request_url_path = ''/Patient/123''\<rparr>)
      = Inr \<lparr>resource_type = Some ''Patient'', interaction_type = Some Patch,
             resource_id = Some ''123'', version_id = None\<rparr>))
   \<and> parse_fhir_request (\<lambda>s. s = ''Patient'')
        (Some \<lparr>request_method = ''PUT'', request_url_path = ''/Patient/123''\<rparr>)
      = Inr \<lparr>resource_type = Some ''Patient'', interaction_type = Some Update,
             resource_id = Some ''123'', version_id = None\<rparr>"
proof -
  have h: "parse_fhir_request (\<lambda>s. s = ''Patient'')
        (Some \<lparr>request_method = ''PUT'', request_url_path = ''/Patient/123''\<rparr>)
      = Inr \<lparr>resource_type = Some ''Patient'', interaction_type = Some Update,
             resource_id = Some ''123'', version_id = None\<rparr>"
    by code_simp
  show ?thesis
    using update_patch_delete_agree[of "\<lambda>s. s = ''Patient''" "''/Patient/123''"
        "''Patient''" "Some ''123''" None] h
    by blast
qed

section \<open>What the matcher computes\<close>

text \<open>
  The states a repetition can leave behind are the splits of the subject after a run of
  characters of the class; the order of the list plays no role for which states are reached.
\<close>

lemma lazy_splits_iff:
  "s' \<in> set (lazy_splits cs s) \<longleftrightarrow> (\<exists>X. s = X @ s' \<and> (\<forall>c\<in>set X. in_charset cs c))"
proof (induction s)
  case Nil
  then show ?case by auto
next
  case (Cons a s)
  show ?case
    by (auto simp: Cons Cons_eq_append_conv)
qed

lemma greedy_splits_iff:
  "s' \<in> set (greedy_splits cs s) \<longleftrightarrow> (\<exists>X. s = X @ s' \<and> (\<forall>c\<in>set X. in_charset cs c))"
proof (induction s)
  case Nil
  then show ?case by auto
next
  case (Cons a s)
  show ?case
    by (auto simp: Cons Cons_eq_append_conv)
qed

lemma repeat_splits_iff:
  "s' \<in> set (repeat_splits cs lo hi s) \<longleftrightarrow>
     (\<exists>X. s = X @ s' \<and> (\<forall>c\<in>set X. in_charset cs c) \<and> lo \<le> length X \<and> length X \<le> hi)"
proof (induction s arbitrary: lo hi)
  case Nil
  then show ?case by auto
next
  case (Cons a s)
  show ?case
  proof
    assume "s' \<in> set (repeat_splits cs lo hi (a # s))"
    then consider
        (step) "0 < hi" "in_charset cs a" "s' \<in> set (repeat_splits cs (lo - 1) (hi - 1) s)"
      | (stop) "lo = 0" "s' = a # s"
      by (auto split: if_splits)
    then show "\<exists>X. a # s = X @ s' \<and> (\<forall>c\<in>set X. in_charset cs c) \<and> lo \<le> length X \<and> length X \<le> hi"
    proof cases
      case step
      from step(3) obtain X where X: "s = X @ s'" "\<forall>c\<in>set X. in_charset cs c"
        "lo - 1 \<le> length X" "length X \<le> hi - 1"
        unfolding Cons by blast
      have "a # s = (a # X) @ s'" using X(1) by simp
      moreover have "\<forall>c\<in>set (a # X). in_charset cs c" using X(2) step(2) by simp
      moreover have "lo \<le> length (a # X)" using X(3) by simp
      moreover have "length (a # X) \<le> hi" using X(4) step(1) by simp
      ultimately show ?thesis by blast
    next
      case stop
      then have "a # s = [] @ s' \<and> (\<forall>c\<in>set []. in_charset cs c) \<and> lo \<le> length ([] :: string)
        \<and> length ([] :: string) \<le> hi" by simp
      then show ?thesis by blast
    qed
  next
    assume "\<exists>X. a # s = X @ s' \<and> (\<forall>c\<in>set X. in_charset cs c) \<and> lo \<le> length X \<and> length X \<le> hi"
    then obtain X where X: "a # s = X @ s'" "\<forall>c\<in>set X. in_charset cs c"
      "lo \<le> length X" "length X \<le> hi" by blast
    show "s' \<in> set (repeat_splits cs lo hi (a # s))"
    proof (cases X)
      case Nil
      with X have "s' = a # s" "lo = 0" by simp_all
      then show ?thesis by simp
    next
      case (Cons b Y)
      with X have Y: "b = a" "s = Y @ s'" "in_charset cs a" "\<forall>c\<in>set Y. in_charset cs c"
        "lo - 1 \<le> length Y" "length Y \<le> hi - 1" "0 < hi"
        by auto
      then have "s' \<in> set (repeat_splits cs (lo - 1) (hi - 1) s)"
        unfolding Cons.IH by blast
      with Y show ?thesis by simp
    qed
  qed
qed

lemma run_Seq_iff:
  "y \<in> set (run (Seq a b) x) \<longleftrightarrow> (\<exists>s1 g1. (s1, g1) \<in> set (run a x) \<and> y \<in> set (run b (s1, g1)))"
  by auto

lemma run_Lit_iff:
  "(s', g') \<in> set (run (Lit l) (s, g)) \<longleftrightarrow> s = l @ s' \<and> g' = g"
proof -
  have "take (length l) s = l \<and> s' = drop (length l) s \<longleftrightarrow> s = l @ s'"
    by (metis append_eq_conv_conj)
  then show ?thesis by auto
qed

lemma run_LazyStar_iff:
  "(s', g') \<in> set (run (LazyStar cs) (s, g)) \<longleftrightarrow>
     (\<exists>X. s = X @ s' \<and> (\<forall>c\<in>set X. in_charset cs c)) \<and> g' = g"
  by (auto simp: lazy_splits_iff)

lemma run_Group_Star_iff:
  "(s', g') \<in> set (run (Group n (Star cs)) (s, g)) \<longleftrightarrow>
     (\<exists>X. s = X @ s' \<and> (\<forall>c\<in>set X. in_charset cs c) \<and> g' = (n, X) # g)"
  by (auto simp: greedy_splits_iff)

lemma run_Group_Repeat_iff:
  "(s', g') \<in> set (run (Group n (Repeat cs lo hi)) (s, g)) \<longleftrightarrow>
     (\<exists>X. s = X @ s' \<and> (\<forall>c\<in>set X. in_charset cs c) \<and> lo \<le> length X \<and> length X \<le> hi
        \<and> g' = (n, X) # g)"
  by (auto simp: repeat_splits_iff)

lemma run_EndAnchor_iff:
  "(s', g') \<in> set (run EndAnchor (s, g)) \<longleftrightarrow> s' = s \<and> g' = g \<and> (s = [] \<or> s = [CHR 0x0A])"
  by auto

lemmas run_iffs = run_Seq_iff run_Lit_iff run_LazyStar_iff run_Group_Star_iff
  run_Group_Repeat_iff run_EndAnchor_iff

lemma in_A_z: "in_charset A_z c \<longleftrightarrow> 65 \<le> (of_char c :: nat) \<and> (of_char c :: nat) \<le> 122"
  by (simp add: A_z_def)

lemma in_id_chars:
  "in_charset id_chars c \<longleftrightarrow>
     (65 \<le> (of_char c :: nat) \<and> (of_char c :: nat) \<le> 90)
   \<or> (97 \<le> (of_char c :: nat) \<and> (of_char c :: nat) \<le> 122)
   \<or> (48 \<le> (of_char c :: nat) \<and> (of_char c :: nat) \<le> 57)
   \<or> (of_char c :: nat) = 45 \<or> (of_char c :: nat) = 46"
  by (auto simp: id_chars_def)

lemma slash_not_A_z: "\<not> in_charset A_z CHR ''/''" by (simp add: in_A_z)
lemma slash_not_id: "\<not> in_charset id_chars CHR ''/''" by (simp add: in_id_chars)
lemma nl_not_A_z: "\<not> in_charset A_z (CHR 0x0A)" by (simp add: in_A_z)
lemma nl_not_id: "\<not> in_charset id_chars (CHR 0x0A)" by (simp add: in_id_chars)

text \<open>The shapes of the five patterns, for any classes, literals and group names.\<close>

lemma in_AnyChar_all: "(\<forall>c\<in>set X. in_charset AnyChar c) \<longleftrightarrow> CHR 0x0A \<notin> set X"
  by auto

lemma run_shape_meta:
  "(s', g') \<in> set (run (seqs [LazyStar c0, Lit l1]) (s, g)) \<longleftrightarrow>
     (\<exists>X. s = X @ l1 @ s' \<and> (\<forall>c\<in>set X. in_charset c0 c)) \<and> g' = g"
  by (simp only: seqs.simps run_Seq_iff run_Lit_iff run_LazyStar_iff) blast

lemma run_tail_end:
  "(s', g') \<in> set (run (Seq (Group n (Star c1)) EndAnchor) (s, g)) \<longleftrightarrow>
     (\<exists>T. s = T @ s' \<and> (\<forall>c\<in>set T. in_charset c1 c) \<and> (s' = [] \<or> s' = [CHR 0x0A])
        \<and> g' = (n, T) # g)"
  by (simp only: run_Seq_iff run_Group_Star_iff run_EndAnchor_iff) blast

lemma run_tail_id_end:
  "(s', g') \<in> set (run (Seq (Group n (Repeat c2 lo hi)) EndAnchor) (s, g)) \<longleftrightarrow>
     (\<exists>I. s = I @ s' \<and> (\<forall>c\<in>set I. in_charset c2 c) \<and> lo \<le> length I \<and> length I \<le> hi
        \<and> (s' = [] \<or> s' = [CHR 0x0A]) \<and> g' = (n, I) # g)"
  by (simp only: run_Seq_iff run_Group_Repeat_iff run_EndAnchor_iff) blast


lemma run_Lit_tail_id_end:
  "(s', g') \<in> set (run (Seq (Lit l2) (Seq (Group n (Repeat c2 lo hi)) EndAnchor)) (s, g)) \<longleftrightarrow>
     (\<exists>I. s = l2 @ I @ s' \<and> (\<forall>c\<in>set I. in_charset c2 c) \<and> lo \<le> length I \<and> length I \<le> hi
        \<and> (s' = [] \<or> s' = [CHR 0x0A]) \<and> g' = (n, I) # g)"
  by (simp only: run_Seq_iff[of _ "Lit l2"] run_Lit_iff run_tail_id_end) blast

lemma run_type_id_end:
  "(s', g') \<in> set (run (Seq (Group n1 (Star c1))
        (Seq (Lit l2) (Seq (Group n2 (Repeat c2 lo hi)) EndAnchor))) (s, g)) \<longleftrightarrow>
     (\<exists>T I. s = T @ l2 @ I @ s' \<and> (\<forall>c\<in>set T. in_charset c1 c)
        \<and> (\<forall>c\<in>set I. in_charset c2 c) \<and> lo \<le> length I \<and> length I \<le> hi
        \<and> (s' = [] \<or> s' = [CHR 0x0A]) \<and> g' = [(n2, I), (n1, T)] @ g)"
  by (simp only: run_Seq_iff[of _ "Group n1 (Star c1)"] run_Group_Star_iff
      run_Lit_tail_id_end append_Cons append_Nil) blast

lemma run_shape_type_id:
  "(s', g') \<in> set (run (seqs [LazyStar c0, Lit l1, Group n1 (Star c1), Lit l2,
        Group n2 (Repeat c2 lo hi), EndAnchor]) (s, g)) \<longleftrightarrow>
     (\<exists>X T I. s = X @ l1 @ T @ l2 @ I @ s' \<and> (\<forall>c\<in>set X. in_charset c0 c)
        \<and> (\<forall>c\<in>set T. in_charset c1 c)
        \<and> (\<forall>c\<in>set I. in_charset c2 c) \<and> lo \<le> length I \<and> length I \<le> hi
        \<and> (s' = [] \<or> s' = [CHR 0x0A]) \<and> g' = [(n2, I), (n1, T)] @ g)"
proof -
  have "(s', g') \<in> set (run (seqs [LazyStar c0, Lit l1, Group n1 (Star c1), Lit l2,
        Group n2 (Repeat c2 lo hi), EndAnchor]) (s, g)) \<longleftrightarrow>
    (\<exists>s1. (\<exists>X. s = X @ s1 \<and> (\<forall>c\<in>set X. in_charset c0 c)) \<and>
       (\<exists>s2. s1 = l1 @ s2 \<and> (s', g') \<in> set (run (Seq (Group n1 (Star c1))
        (Seq (Lit l2) (Seq (Group n2 (Repeat c2 lo hi)) EndAnchor))) (s2, g))))"
    by (simp only: seqs.simps run_Seq_iff[of _ "LazyStar c0"] run_Seq_iff[of _ "Lit l1"]
        run_LazyStar_iff run_Lit_iff) blast
  also have "\<dots> \<longleftrightarrow> (\<exists>X T I. s = X @ l1 @ T @ l2 @ I @ s' \<and> (\<forall>c\<in>set X. in_charset c0 c)
        \<and> (\<forall>c\<in>set T. in_charset c1 c)
        \<and> (\<forall>c\<in>set I. in_charset c2 c) \<and> lo \<le> length I \<and> length I \<le> hi
        \<and> (s' = [] \<or> s' = [CHR 0x0A]) \<and> g' = [(n2, I), (n1, T)] @ g)"
    unfolding run_type_id_end by blast
  finally show ?thesis .
qed

lemma run_shape_type:
  "(s', g') \<in> set (run (seqs [LazyStar c0, Lit l1, Group n1 (Star c1), EndAnchor]) (s, g)) \<longleftrightarrow>
     (\<exists>X T. s = X @ l1 @ T @ s' \<and> (\<forall>c\<in>set X. in_charset c0 c)
        \<and> (\<forall>c\<in>set T. in_charset c1 c)
        \<and> (s' = [] \<or> s' = [CHR 0x0A]) \<and> g' = [(n1, T)] @ g)"
proof -
  have "(s', g') \<in> set (run (seqs [LazyStar c0, Lit l1, Group n1 (Star c1), EndAnchor]) (s, g)) \<longleftrightarrow>
    (\<exists>s1. (\<exists>X. s = X @ s1 \<and> (\<forall>c\<in>set X. in_charset c0 c)) \<and>
       (\<exists>s2. s1 = l1 @ s2 \<and> (s', g') \<in> set (run (Seq (Group n1 (Star c1)) EndAnchor) (s2, g))))"
    by (simp only: seqs.simps run_Seq_iff[of _ "LazyStar c0"] run_Seq_iff[of _ "Lit l1"]
        run_LazyStar_iff run_Lit_iff) blast
  also have "\<dots> \<longleftrightarrow> (\<exists>X T. s = X @ l1 @ T @ s' \<and> (\<forall>c\<in>set X. in_charset c0 c)
        \<and> (\<forall>c\<in>set T. in_charset c1 c)
        \<and> (s' = [] \<or> s' = [CHR 0x0A]) \<and> g' = [(n1, T)] @ g)"
    unfolding run_tail_end by (simp only: append_Cons append_Nil) blast
  finally show ?thesis .
qed


lemma run_id_Lit_id_end:
  "(s', g') \<in> set (run (Seq (Group n2 (Repeat c2 lo hi))
        (Seq (Lit l3) (Seq (Group n3 (Repeat c3 lo3 hi3)) EndAnchor))) (s, g)) \<longleftrightarrow>
     (\<exists>I V. s = I @ l3 @ V @ s'
        \<and> (\<forall>c\<in>set I. in_charset c2 c) \<and> lo \<le> length I \<and> length I \<le> hi
        \<and> (\<forall>c\<in>set V. in_charset c3 c) \<and> lo3 \<le> length V \<and> length V \<le> hi3
        \<and> (s' = [] \<or> s' = [CHR 0x0A]) \<and> g' = [(n3, V), (n2, I)] @ g)"
  by (simp only: run_Seq_iff[of _ "Group n2 (Repeat c2 lo hi)"] run_Group_Repeat_iff
      run_Lit_tail_id_end append_Cons append_Nil) blast

lemma run_Lit_id_Lit_id_end:
  "(s', g') \<in> set (run (Seq (Lit l2) (Seq (Group n2 (Repeat c2 lo hi))
        (Seq (Lit l3) (Seq (Group n3 (Repeat c3 lo3 hi3)) EndAnchor)))) (s, g)) \<longleftrightarrow>
     (\<exists>I V. s = l2 @ I @ l3 @ V @ s'
        \<and> (\<forall>c\<in>set I. in_charset c2 c) \<and> lo \<le> length I \<and> length I \<le> hi
        \<and> (\<forall>c\<in>set V. in_charset c3 c) \<and> lo3 \<le> length V \<and> length V \<le> hi3
        \<and> (s' = [] \<or> s' = [CHR 0x0A]) \<and> g' = [(n3, V), (n2, I)] @ g)"
  by (simp only: run_Seq_iff[of _ "Lit l2"] run_Lit_iff run_id_Lit_id_end) blast

lemma run_type_id_id_end:
  "(s', g') \<in> set (run (Seq (Group n1 (Star c1)) (Seq (Lit l2) (Seq (Group n2 (Repeat c2 lo hi))
        (Seq (Lit l3) (Seq (Group n3 (Repeat c3 lo3 hi3)) EndAnchor))))) (s, g)) \<longleftrightarrow>
     (\<exists>T I V. s = T @ l2 @ I @ l3 @ V @ s' \<and> (\<forall>c\<in>set T. in_charset c1 c)
        \<and> (\<forall>c\<in>set I. in_charset c2 c) \<and> lo \<le> length I \<and> length I \<le> hi
        \<and> (\<forall>c\<in>set V. in_charset c3 c) \<and> lo3 \<le> length V \<and> length V \<le> hi3
        \<and> (s' = [] \<or> s' = [CHR 0x0A]) \<and> g' = [(n3, V), (n2, I), (n1, T)] @ g)"
  by (simp only: run_Seq_iff[of _ "Group n1 (Star c1)"] run_Group_Star_iff
      run_Lit_id_Lit_id_end append_Cons append_Nil) blast

lemma run_shape_type_id_version:
  "(s', g') \<in> set (run (seqs [LazyStar c0, Lit l1, Group n1 (Star c1), Lit l2,
        Group n2 (Repeat c2 lo hi), Lit l3, Group n3 (Repeat c3 lo3 hi3), EndAnchor]) (s, g)) \<longleftrightarrow>
     (\<exists>X T I V. s = X @ l1 @ T @ l2 @ I @ l3 @ V @ s' \<and> (\<forall>c\<in>set X. in_charset c0 c)
        \<and> (\<forall>c\<in>set T. in_charset c1 c)
        \<and> (\<forall>c\<in>set I. in_charset c2 c) \<and> lo \<le> length I \<and> length I \<le> hi
        \<and> (\<forall>c\<in>set V. in_charset c3 c) \<and> lo3 \<le> length V \<and> length V \<le> hi3
        \<and> (s' = [] \<or> s' = [CHR 0x0A]) \<and> g' = [(n3, V), (n2, I), (n1, T)] @ g)"
proof -
  have "(s', g') \<in> set (run (seqs [LazyStar c0, Lit l1, Group n1 (Star c1), Lit l2,
        Group n2 (Repeat c2 lo hi), Lit l3, Group n3 (Repeat c3 lo3 hi3), EndAnchor]) (s, g)) \<longleftrightarrow>
    (\<exists>s1. (\<exists>X. s = X @ s1 \<and> (\<forall>c\<in>set X. in_charset c0 c)) \<and>
       (\<exists>s2. s1 = l1 @ s2 \<and> (s', g') \<in> set (run (Seq (Group n1 (Star c1)) (Seq (Lit l2)
          (Seq (Group n2 (Repeat c2 lo hi))
            (Seq (Lit l3) (Seq (Group n3 (Repeat c3 lo3 hi3)) EndAnchor))))) (s2, g))))"
    by (simp only: seqs.simps run_Seq_iff[of _ "LazyStar c0"] run_Seq_iff[of _ "Lit l1"]
        run_LazyStar_iff run_Lit_iff) blast
  also have "\<dots> \<longleftrightarrow> (\<exists>X T I V. s = X @ l1 @ T @ l2 @ I @ l3 @ V @ s'
        \<and> (\<forall>c\<in>set X. in_charset c0 c) \<and> (\<forall>c\<in>set T. in_charset c1 c)
        \<and> (\<forall>c\<in>set I. in_charset c2 c) \<and> lo \<le> length I \<and> length I \<le> hi
        \<and> (\<forall>c\<in>set V. in_charset c3 c) \<and> lo3 \<le> length V \<and> length V \<le> hi3
        \<and> (s' = [] \<or> s' = [CHR 0x0A]) \<and> g' = [(n3, V), (n2, I), (n1, T)] @ g)"
    unfolding run_type_id_id_end by blast
  finally show ?thesis .
qed

lemma run_Lit_end:
  "(s', g') \<in> set (run (Seq (Lit l2) EndAnchor) (s, g)) \<longleftrightarrow>
     s = l2 @ s' \<and> (s' = [] \<or> s' = [CHR 0x0A]) \<and> g' = g"
  by (simp only: run_Seq_iff run_Lit_iff run_EndAnchor_iff) blast

lemma run_type_Lit_end:
  "(s', g') \<in> set (run (Seq (Group n1 (Star c1)) (Seq (Lit l2) EndAnchor)) (s, g)) \<longleftrightarrow>
     (\<exists>T. s = T @ l2 @ s' \<and> (\<forall>c\<in>set T. in_charset c1 c)
        \<and> (s' = [] \<or> s' = [CHR 0x0A]) \<and> g' = [(n1, T)] @ g)"
  by (simp only: run_Seq_iff[of _ "Group n1 (Star c1)"] run_Group_Star_iff
      run_Lit_end append_Cons append_Nil) blast

lemma run_shape_type_Lit:
  "(s', g') \<in> set (run (seqs [LazyStar c0, Lit l1, Group n1 (Star c1), Lit l2, EndAnchor])
        (s, g)) \<longleftrightarrow>
     (\<exists>X T. s = X @ l1 @ T @ l2 @ s' \<and> (\<forall>c\<in>set X. in_charset c0 c)
        \<and> (\<forall>c\<in>set T. in_charset c1 c)
        \<and> (s' = [] \<or> s' = [CHR 0x0A]) \<and> g' = [(n1, T)] @ g)"
proof -
  have "(s', g') \<in> set (run (seqs [LazyStar c0, Lit l1, Group n1 (Star c1), Lit l2, EndAnchor])
        (s, g)) \<longleftrightarrow>
    (\<exists>s1. (\<exists>X. s = X @ s1 \<and> (\<forall>c\<in>set X. in_charset c0 c)) \<and>
       (\<exists>s2. s1 = l1 @ s2 \<and>
          (s', g') \<in> set (run (Seq (Group n1 (Star c1)) (Seq (Lit l2) EndAnchor)) (s2, g))))"
    by (simp only: seqs.simps run_Seq_iff[of _ "LazyStar c0"] run_Seq_iff[of _ "Lit l1"]
        run_LazyStar_iff run_Lit_iff) blast
  also have "\<dots> \<longleftrightarrow> (\<exists>X T. s = X @ l1 @ T @ l2 @ s' \<and> (\<forall>c\<in>set X. in_charset c0 c)
        \<and> (\<forall>c\<in>set T. in_charset c1 c)
        \<and> (s' = [] \<or> s' = [CHR 0x0A]) \<and> g' = [(n1, T)] @ g)"
    unfolding run_type_Lit_end by blast
  finally show ?thesis .
qed

text \<open>The patterns of the source.\<close>

lemma run_METADATA:
  "(s', g') \<in> set (run METADATA_PATH_REGEX (s, [])) \<longleftrightarrow>
     (\<exists>X. s = X @ ''/metadata'' @ s' \<and> CHR 0x0A \<notin> set X) \<and> g' = []"
  unfolding METADATA_PATH_REGEX_def run_shape_meta in_AnyChar_all by blast

lemma run_READ:
  "(s', g') \<in> set (run READ_PATH_REGEX (s, [])) \<longleftrightarrow>
     (\<exists>X T I. s = X @ ''/'' @ T @ ''/'' @ I @ s' \<and> CHR 0x0A \<notin> set X
        \<and> (\<forall>c\<in>set T. in_charset A_z c)
        \<and> (\<forall>c\<in>set I. in_charset id_chars c) \<and> 1 \<le> length I \<and> length I \<le> 64
        \<and> (s' = [] \<or> s' = [CHR 0x0A])
        \<and> g' = [(''resource_id'', I), (''resource_type'', T)])"
  unfolding READ_PATH_REGEX_def run_shape_type_id in_AnyChar_all append_Nil2 by blast

lemma run_VREAD:
  "(s', g') \<in> set (run VREAD_PATH_REGEX (s, [])) \<longleftrightarrow>
     (\<exists>X T I V. s = X @ ''/'' @ T @ ''/'' @ I @ ''/_history/'' @ V @ s' \<and> CHR 0x0A \<notin> set X
        \<and> (\<forall>c\<in>set T. in_charset A_z c)
        \<and> (\<forall>c\<in>set I. in_charset id_chars c) \<and> 1 \<le> length I \<and> length I \<le> 64
        \<and> (\<forall>c\<in>set V. in_charset id_chars c) \<and> 1 \<le> length V \<and> length V \<le> 64
        \<and> (s' = [] \<or> s' = [CHR 0x0A])
        \<and> g' = [(''version_id'', V), (''resource_id'', I), (''resource_type'', T)])"
  unfolding VREAD_PATH_REGEX_def run_shape_type_id_version in_AnyChar_all append_Nil2 by blast

lemma run_CREATE:
  "(s', g') \<in> set (run CREATE_PATH_REGEX (s, [])) \<longleftrightarrow>
     (\<exists>X T. s = X @ ''/'' @ T @ s' \<and> CHR 0x0A \<notin> set X
        \<and> (\<forall>c\<in>set T. in_charset A_z c)
        \<and> (s' = [] \<or> s' = [CHR 0x0A])
        \<and> g' = [(''resource_type'', T)])"
  unfolding CREATE_PATH_REGEX_def run_shape_type in_AnyChar_all append_Nil2 by blast

lemma run_SEARCH_POST:
  "(s', g') \<in> set (run SEARCH_TYPE_POST_PATH_REGEX (s, [])) \<longleftrightarrow>
     (\<exists>X T. s = X @ ''/'' @ T @ ''/_search'' @ s' \<and> CHR 0x0A \<notin> set X
        \<and> (\<forall>c\<in>set T. in_charset A_z c)
        \<and> (s' = [] \<or> s' = [CHR 0x0A])
        \<and> g' = [(''resource_type'', T)])"
  unfolding SEARCH_TYPE_POST_PATH_REGEX_def run_shape_type_Lit in_AnyChar_all append_Nil2 by blast

lemma other_regexes:
  "SEARCH_TYPE_GET_PATH_REGEX = CREATE_PATH_REGEX"
  "UPDATE_PATH_REGEX = READ_PATH_REGEX"
  by (simp_all add: SEARCH_TYPE_GET_PATH_REGEX_def CREATE_PATH_REGEX_def
      UPDATE_PATH_REGEX_def READ_PATH_REGEX_def)

section \<open>The captures of a match are determined by the path\<close>

lemma re_match_None_iff: "re_match r s = None \<longleftrightarrow> set (run r (s, [])) = {}"
  by (auto simp: re_match_def split: list.splits)

lemma re_match_Some_in:
  assumes "re_match r s = Some g"
  shows "\<exists>s'. (s', g) \<in> set (run r (s, []))"
proof -
  from assms obtain st rest where "run r (s, []) = st # rest" "snd st = g"
    by (auto simp: re_match_def split: list.splits)
  then have "(fst st, g) \<in> set (run r (s, []))" by (cases st) auto
  then show ?thesis by blast
qed

lemma re_match_unique:
  assumes "(s', g) \<in> set (run r (s, []))"
    and "\<And>a b. a \<in> set (run r (s, [])) \<Longrightarrow> b \<in> set (run r (s, [])) \<Longrightarrow> snd a = snd b"
  shows "re_match r s = Some g"
proof -
  from assms(1) obtain st rest where st: "run r (s, []) = st # rest"
    by (cases "run r (s, [])") auto
  then have "st \<in> set (run r (s, []))" by simp
  from assms(2)[OF this assms(1)] have "snd st = g" by simp
  with st show ?thesis by (simp add: re_match_def)
qed

lemma first_split_unique:
  assumes "xs @ c # ys = xs' @ c # ys'" and "c \<notin> set xs" and "c \<notin> set xs'"
  shows "xs = xs' \<and> ys = ys'"
  using assms
proof (induction xs arbitrary: xs')
  case Nil
  then show ?case by (cases xs') auto
next
  case (Cons a xs)
  then show ?case by (cases xs') auto
qed

lemma last_split_unique:
  assumes "xs @ c # ys = xs' @ c # ys'" and "c \<notin> set ys" and "c \<notin> set ys'"
  shows "xs = xs' \<and> ys = ys'"
proof -
  from assms(1) have "rev (xs @ c # ys) = rev (xs' @ c # ys')" by simp
  then have "rev ys @ c # rev xs = rev ys' @ c # rev xs'" by simp
  from first_split_unique[OF this] assms(2,3) show ?thesis by simp
qed

lemma end_unique:
  assumes "I @ e = I' @ e'"
    and "CHR 0x0A \<notin> set I" and "CHR 0x0A \<notin> set I'"
    and "e = [] \<or> e = [CHR 0x0A]" and "e' = [] \<or> e' = [CHR 0x0A]"
  shows "I = I' \<and> e = e'"
  using assms by (auto simp: append_eq_append_conv2 append_eq_Cons_conv Cons_eq_append_conv)

lemma A_z_no_slash: "\<forall>c\<in>set T. in_charset A_z c \<Longrightarrow> CHR ''/'' \<notin> set T"
  using slash_not_A_z by blast

lemma A_z_no_nl: "\<forall>c\<in>set T. in_charset A_z c \<Longrightarrow> CHR 0x0A \<notin> set T"
  using nl_not_A_z by blast

lemma id_no_slash: "\<forall>c\<in>set I. in_charset id_chars c \<Longrightarrow> CHR ''/'' \<notin> set I"
  using slash_not_id by blast

lemma id_no_nl: "\<forall>c\<in>set I. in_charset id_chars c \<Longrightarrow> CHR 0x0A \<notin> set I"
  using nl_not_id by blast

lemma end_no_slash: "e = [] \<or> e = [CHR 0x0A] \<Longrightarrow> CHR ''/'' \<notin> set e"
  by auto

text \<open>The last segment, with the newline the anchor may leave.\<close>

lemma tail_unique:
  assumes eq: "P @ CHR ''/'' # W @ e = P' @ CHR ''/'' # W' @ e'"
    and W: "CHR ''/'' \<notin> set W" "CHR 0x0A \<notin> set W"
    and W': "CHR ''/'' \<notin> set W'" "CHR 0x0A \<notin> set W'"
    and e: "e = [] \<or> e = [CHR 0x0A]" and e': "e' = [] \<or> e' = [CHR 0x0A]"
  shows "P = P' \<and> W = W' \<and> e = e'"
proof -
  have "CHR ''/'' \<notin> set (W @ e)" "CHR ''/'' \<notin> set (W' @ e')"
    using W W' end_no_slash[OF e] end_no_slash[OF e'] by simp_all
  from last_split_unique[OF eq this] have "P = P'" "W @ e = W' @ e'" by simp_all
  with end_unique[OF _ W(2) W'(2) e e'] show ?thesis by simp
qed

lemma READ_decomp_unique:
  assumes eq: "X @ ''/'' @ T @ ''/'' @ I @ e = X' @ ''/'' @ T' @ ''/'' @ I' @ e'"
    and T: "\<forall>c\<in>set T. in_charset A_z c" and T': "\<forall>c\<in>set T'. in_charset A_z c"
    and I: "\<forall>c\<in>set I. in_charset id_chars c" and I': "\<forall>c\<in>set I'. in_charset id_chars c"
    and e: "e = [] \<or> e = [CHR 0x0A]" and e': "e' = [] \<or> e' = [CHR 0x0A]"
  shows "X = X' \<and> T = T' \<and> I = I' \<and> e = e'"
proof -
  from eq have "(X @ CHR ''/'' # T) @ CHR ''/'' # I @ e = (X' @ CHR ''/'' # T') @ CHR ''/'' # I' @ e'"
    by simp
  from tail_unique[OF this id_no_slash[OF I] id_no_nl[OF I] id_no_slash[OF I'] id_no_nl[OF I'] e e']
  have 1: "X @ CHR ''/'' # T = X' @ CHR ''/'' # T'" "I = I'" "e = e'" by simp_all
  from last_split_unique[OF 1(1) A_z_no_slash[OF T] A_z_no_slash[OF T']] 1
  show ?thesis by simp
qed

lemma re_match_READ:
  "re_match READ_PATH_REGEX s = Some g \<longleftrightarrow>
     (\<exists>X T I e. s = X @ ''/'' @ T @ ''/'' @ I @ e \<and> CHR 0x0A \<notin> set X
        \<and> (\<forall>c\<in>set T. in_charset A_z c)
        \<and> (\<forall>c\<in>set I. in_charset id_chars c) \<and> 1 \<le> length I \<and> length I \<le> 64
        \<and> (e = [] \<or> e = [CHR 0x0A])
        \<and> g = [(''resource_id'', I), (''resource_type'', T)])"
  (is "?L \<longleftrightarrow> ?R")
proof
  assume ?L
  from re_match_Some_in[OF this] show ?R unfolding run_READ by blast
next
  assume ?R
  then obtain e where in_run: "(e, g) \<in> set (run READ_PATH_REGEX (s, []))"
    unfolding run_READ by blast
  show ?L
  proof (rule re_match_unique[OF in_run])
    fix a b
    assume a: "a \<in> set (run READ_PATH_REGEX (s, []))"
      and b: "b \<in> set (run READ_PATH_REGEX (s, []))"
    from a obtain X T I where A: "s = X @ ''/'' @ T @ ''/'' @ I @ fst a"
      "\<forall>c\<in>set T. in_charset A_z c" "\<forall>c\<in>set I. in_charset id_chars c"
      "fst a = [] \<or> fst a = [CHR 0x0A]" "snd a = [(''resource_id'', I), (''resource_type'', T)]"
      using run_READ[of "fst a" "snd a" s] by auto
    from b obtain X' T' I' where B: "s = X' @ ''/'' @ T' @ ''/'' @ I' @ fst b"
      "\<forall>c\<in>set T'. in_charset A_z c" "\<forall>c\<in>set I'. in_charset id_chars c"
      "fst b = [] \<or> fst b = [CHR 0x0A]" "snd b = [(''resource_id'', I'), (''resource_type'', T')]"
      using run_READ[of "fst b" "snd b" s] by auto
    from A(1) B(1) have "X @ ''/'' @ T @ ''/'' @ I @ fst a = X' @ ''/'' @ T' @ ''/'' @ I' @ fst b"
      by simp
    from READ_decomp_unique[OF this A(2) B(2) A(3) B(3) A(4) B(4)] A(5) B(5)
    show "snd a = snd b" by simp
  qed
qed


lemma VREAD_decomp_unique:
  assumes eq: "X @ ''/'' @ T @ ''/'' @ I @ ''/_history/'' @ V @ e
             = X' @ ''/'' @ T' @ ''/'' @ I' @ ''/_history/'' @ V' @ e'"
    and T: "\<forall>c\<in>set T. in_charset A_z c" and T': "\<forall>c\<in>set T'. in_charset A_z c"
    and I: "\<forall>c\<in>set I. in_charset id_chars c" and I': "\<forall>c\<in>set I'. in_charset id_chars c"
    and V: "\<forall>c\<in>set V. in_charset id_chars c" and V': "\<forall>c\<in>set V'. in_charset id_chars c"
    and e: "e = [] \<or> e = [CHR 0x0A]" and e': "e' = [] \<or> e' = [CHR 0x0A]"
  shows "X = X' \<and> T = T' \<and> I = I' \<and> V = V' \<and> e = e'"
proof -
  from eq have "(X @ CHR ''/'' # T @ CHR ''/'' # I @ ''/_history'') @ CHR ''/'' # V @ e
      = (X' @ CHR ''/'' # T' @ CHR ''/'' # I' @ ''/_history'') @ CHR ''/'' # V' @ e'"
    by simp
  from tail_unique[OF this id_no_slash[OF V] id_no_nl[OF V] id_no_slash[OF V'] id_no_nl[OF V'] e e']
  have 1: "X @ CHR ''/'' # T @ CHR ''/'' # I @ ''/_history''
      = X' @ CHR ''/'' # T' @ CHR ''/'' # I' @ ''/_history''" "V = V'" "e = e'"
    by simp_all
  from 1(1) have "(X @ CHR ''/'' # T) @ CHR ''/'' # I = (X' @ CHR ''/'' # T') @ CHR ''/'' # I'"
    by simp
  from last_split_unique[OF this id_no_slash[OF I] id_no_slash[OF I']]
  have 2: "X @ CHR ''/'' # T = X' @ CHR ''/'' # T'" "I = I'" by simp_all
  from last_split_unique[OF 2(1) A_z_no_slash[OF T] A_z_no_slash[OF T']] 1 2
  show ?thesis by simp
qed

lemma re_match_VREAD:
  "re_match VREAD_PATH_REGEX s = Some g \<longleftrightarrow>
     (\<exists>X T I V e. s = X @ ''/'' @ T @ ''/'' @ I @ ''/_history/'' @ V @ e \<and> CHR 0x0A \<notin> set X
        \<and> (\<forall>c\<in>set T. in_charset A_z c)
        \<and> (\<forall>c\<in>set I. in_charset id_chars c) \<and> 1 \<le> length I \<and> length I \<le> 64
        \<and> (\<forall>c\<in>set V. in_charset id_chars c) \<and> 1 \<le> length V \<and> length V \<le> 64
        \<and> (e = [] \<or> e = [CHR 0x0A])
        \<and> g = [(''version_id'', V), (''resource_id'', I), (''resource_type'', T)])"
  (is "?L \<longleftrightarrow> ?R")
proof
  assume ?L
  from re_match_Some_in[OF this] show ?R unfolding run_VREAD by blast
next
  assume ?R
  then obtain e where in_run: "(e, g) \<in> set (run VREAD_PATH_REGEX (s, []))"
    unfolding run_VREAD by blast
  show ?L
  proof (rule re_match_unique[OF in_run])
    fix a b
    assume a: "a \<in> set (run VREAD_PATH_REGEX (s, []))"
      and b: "b \<in> set (run VREAD_PATH_REGEX (s, []))"
    from a obtain X T I V where A: "s = X @ ''/'' @ T @ ''/'' @ I @ ''/_history/'' @ V @ fst a"
      "\<forall>c\<in>set T. in_charset A_z c" "\<forall>c\<in>set I. in_charset id_chars c"
      "\<forall>c\<in>set V. in_charset id_chars c"
      "fst a = [] \<or> fst a = [CHR 0x0A]"
      "snd a = [(''version_id'', V), (''resource_id'', I), (''resource_type'', T)]"
      using run_VREAD[of "fst a" "snd a" s] by auto
    from b obtain X' T' I' V' where
      B: "s = X' @ ''/'' @ T' @ ''/'' @ I' @ ''/_history/'' @ V' @ fst b"
      "\<forall>c\<in>set T'. in_charset A_z c" "\<forall>c\<in>set I'. in_charset id_chars c"
      "\<forall>c\<in>set V'. in_charset id_chars c"
      "fst b = [] \<or> fst b = [CHR 0x0A]"
      "snd b = [(''version_id'', V'), (''resource_id'', I'), (''resource_type'', T')]"
      using run_VREAD[of "fst b" "snd b" s] by auto
    from A(1) B(1) have "X @ ''/'' @ T @ ''/'' @ I @ ''/_history/'' @ V @ fst a
        = X' @ ''/'' @ T' @ ''/'' @ I' @ ''/_history/'' @ V' @ fst b"
      by simp
    from VREAD_decomp_unique[OF this A(2) B(2) A(3) B(3) A(4) B(4) A(5) B(5)] A(6) B(6)
    show "snd a = snd b" by simp
  qed
qed

lemma CREATE_decomp_unique:
  assumes eq: "X @ ''/'' @ T @ e = X' @ ''/'' @ T' @ e'"
    and T: "\<forall>c\<in>set T. in_charset A_z c" and T': "\<forall>c\<in>set T'. in_charset A_z c"
    and e: "e = [] \<or> e = [CHR 0x0A]" and e': "e' = [] \<or> e' = [CHR 0x0A]"
  shows "X = X' \<and> T = T' \<and> e = e'"
proof -
  from eq have "X @ CHR ''/'' # T @ e = X' @ CHR ''/'' # T' @ e'" by simp
  from tail_unique[OF this A_z_no_slash[OF T] A_z_no_nl[OF T] A_z_no_slash[OF T']
      A_z_no_nl[OF T'] e e']
  show ?thesis .
qed

lemma re_match_CREATE:
  "re_match CREATE_PATH_REGEX s = Some g \<longleftrightarrow>
     (\<exists>X T e. s = X @ ''/'' @ T @ e \<and> CHR 0x0A \<notin> set X
        \<and> (\<forall>c\<in>set T. in_charset A_z c)
        \<and> (e = [] \<or> e = [CHR 0x0A])
        \<and> g = [(''resource_type'', T)])"
  (is "?L \<longleftrightarrow> ?R")
proof
  assume ?L
  from re_match_Some_in[OF this] show ?R unfolding run_CREATE by blast
next
  assume ?R
  then obtain e where in_run: "(e, g) \<in> set (run CREATE_PATH_REGEX (s, []))"
    unfolding run_CREATE by blast
  show ?L
  proof (rule re_match_unique[OF in_run])
    fix a b
    assume a: "a \<in> set (run CREATE_PATH_REGEX (s, []))"
      and b: "b \<in> set (run CREATE_PATH_REGEX (s, []))"
    from a obtain X T where A: "s = X @ ''/'' @ T @ fst a"
      "\<forall>c\<in>set T. in_charset A_z c"
      "fst a = [] \<or> fst a = [CHR 0x0A]" "snd a = [(''resource_type'', T)]"
      using run_CREATE[of "fst a" "snd a" s] by auto
    from b obtain X' T' where B: "s = X' @ ''/'' @ T' @ fst b"
      "\<forall>c\<in>set T'. in_charset A_z c"
      "fst b = [] \<or> fst b = [CHR 0x0A]" "snd b = [(''resource_type'', T')]"
      using run_CREATE[of "fst b" "snd b" s] by auto
    from A(1) B(1) have "X @ ''/'' @ T @ fst a = X' @ ''/'' @ T' @ fst b"
      by simp
    from CREATE_decomp_unique[OF this A(2) B(2) A(3) B(3)] A(4) B(4)
    show "snd a = snd b" by simp
  qed
qed

lemma SEARCH_POST_decomp_unique:
  assumes eq: "X @ ''/'' @ T @ ''/_search'' @ e = X' @ ''/'' @ T' @ ''/_search'' @ e'"
    and T: "\<forall>c\<in>set T. in_charset A_z c" and T': "\<forall>c\<in>set T'. in_charset A_z c"
    and e: "e = [] \<or> e = [CHR 0x0A]" and e': "e' = [] \<or> e' = [CHR 0x0A]"
  shows "X = X' \<and> T = T' \<and> e = e'"
proof -
  from eq have "(X @ CHR ''/'' # T) @ CHR ''/'' # ''_search'' @ e
      = (X' @ CHR ''/'' # T') @ CHR ''/'' # ''_search'' @ e'" by simp
  from tail_unique[OF this _ _ _ _ e e']
  have 1: "X @ CHR ''/'' # T = X' @ CHR ''/'' # T'" "e = e'" by simp_all
  from last_split_unique[OF 1(1) A_z_no_slash[OF T] A_z_no_slash[OF T']] 1
  show ?thesis by simp
qed

lemma re_match_SEARCH_POST:
  "re_match SEARCH_TYPE_POST_PATH_REGEX s = Some g \<longleftrightarrow>
     (\<exists>X T e. s = X @ ''/'' @ T @ ''/_search'' @ e \<and> CHR 0x0A \<notin> set X
        \<and> (\<forall>c\<in>set T. in_charset A_z c)
        \<and> (e = [] \<or> e = [CHR 0x0A])
        \<and> g = [(''resource_type'', T)])"
  (is "?L \<longleftrightarrow> ?R")
proof
  assume ?L
  from re_match_Some_in[OF this] show ?R unfolding run_SEARCH_POST by blast
next
  assume ?R
  then obtain e where in_run: "(e, g) \<in> set (run SEARCH_TYPE_POST_PATH_REGEX (s, []))"
    unfolding run_SEARCH_POST by blast
  show ?L
  proof (rule re_match_unique[OF in_run])
    fix a b
    assume a: "a \<in> set (run SEARCH_TYPE_POST_PATH_REGEX (s, []))"
      and b: "b \<in> set (run SEARCH_TYPE_POST_PATH_REGEX (s, []))"
    from a obtain X T where A: "s = X @ ''/'' @ T @ ''/_search'' @ fst a"
      "\<forall>c\<in>set T. in_charset A_z c"
      "fst a = [] \<or> fst a = [CHR 0x0A]" "snd a = [(''resource_type'', T)]"
      using run_SEARCH_POST[of "fst a" "snd a" s] by auto
    from b obtain X' T' where B: "s = X' @ ''/'' @ T' @ ''/_search'' @ fst b"
      "\<forall>c\<in>set T'. in_charset A_z c"
      "fst b = [] \<or> fst b = [CHR 0x0A]" "snd b = [(''resource_type'', T')]"
      using run_SEARCH_POST[of "fst b" "snd b" s] by auto
    from A(1) B(1)
    have "X @ ''/'' @ T @ ''/_search'' @ fst a = X' @ ''/'' @ T' @ ''/_search'' @ fst b"
      by simp
    from SEARCH_POST_decomp_unique[OF this A(2) B(2) A(3) B(3)] A(4) B(4)
    show "snd a = snd b" by simp
  qed
qed

lemma re_match_METADATA:
  "re_match METADATA_PATH_REGEX s \<noteq> None \<longleftrightarrow>
     (\<exists>X Y. s = X @ ''/metadata'' @ Y \<and> CHR 0x0A \<notin> set X)"
proof -
  have "re_match METADATA_PATH_REGEX s \<noteq> None \<longleftrightarrow>
      (\<exists>s' g'. (s', g') \<in> set (run METADATA_PATH_REGEX (s, [])))"
    unfolding re_match_None_iff by (cases "run METADATA_PATH_REGEX (s, [])") auto
  then show ?thesis unfolding run_METADATA by blast
qed

section \<open>Capabilities comes first\<close>

lemma metadata_match_is_capabilities:
  assumes "path = X @ ''/metadata'' @ Y" and "CHR 0x0A \<notin> set X"
  shows "parse_fhir_request is_rt
           (Some \<lparr>request_method = ''GET'', request_url_path = path\<rparr>)
         = Inr \<lparr>resource_type = None, interaction_type = Some Capabilities,
                resource_id = None, version_id = None\<rparr>"
proof -
  from assms have "re_match METADATA_PATH_REGEX path \<noteq> None"
    unfolding re_match_METADATA by blast
  then show ?thesis by (simp add: parse_GET capabilities_info_def)
qed

text \<open>
  C6. Every \<^verbatim>\<open>GET\<close> request whose path has \<^verbatim>\<open>/metadata\<close> somewhere is
  classified as capabilities, with everything else absent, whatever the other matchers would
  say of the path: the metadata matcher is the first of the loop. The path is the path of a
  request, without a newline.
\<close>

theorem capabilities_wins:
  assumes "CHR 0x0A \<notin> set path" and "path = X @ ''/metadata'' @ Y"
  shows "parse_fhir_request is_resource_type
           (Some \<lparr>request_method = ''GET'', request_url_path = path\<rparr>)
         = Inr \<lparr>resource_type = None, interaction_type = Some Capabilities,
                resource_id = None, version_id = None\<rparr>"
proof -
  from assms(1) have "CHR 0x0A \<notin> set (X @ ''/metadata'' @ Y)" unfolding assms(2) .
  then have "CHR 0x0A \<notin> set X" by simp
  from metadata_match_is_capabilities[OF assms(2) this] show ?thesis .
qed

theorem capabilities_wins_witness:
  "parse_fhir_request (\<lambda>s. s = ''Patient'')
      (Some \<lparr>request_method = ''GET'', request_url_path = ''/metadata''\<rparr>)
   = Inr \<lparr>resource_type = None, interaction_type = Some Capabilities,
          resource_id = None, version_id = None\<rparr>
   \<and> parse_fhir_request (\<lambda>s. s = ''Patient'')
      (Some \<lparr>request_method = ''GET'', request_url_path = ''/metadata/Patient/123''\<rparr>)
   = Inr \<lparr>resource_type = None, interaction_type = Some Capabilities,
          resource_id = None, version_id = None\<rparr>"
proof -
  have 1: "CHR 0x0A \<notin> set ''/metadata''" by simp
  have 2: "''/metadata'' = [] @ ''/metadata'' @ []" by simp
  have 3: "CHR 0x0A \<notin> set ''/metadata/Patient/123''" by simp
  have 4: "''/metadata/Patient/123'' = [] @ ''/metadata'' @ ''/Patient/123''" by simp
  from capabilities_wins[OF 1 2, of "\<lambda>s. s = ''Patient''"]
    capabilities_wins[OF 3 4, of "\<lambda>s. s = ''Patient''"]
  show ?thesis by (rule conjI)
qed

section \<open>Paths that end in a slash\<close>

lemma last_in_class_not_slash:
  assumes "\<forall>c\<in>set W. in_charset cs c" and "\<not> in_charset cs CHR ''/''" and "W \<noteq> []"
  shows "last (P @ W) \<noteq> CHR ''/''"
proof -
  have "last (P @ W) = last W" using assms(3) by simp
  moreover have "last W \<in> set W" using assms(3) by simp
  ultimately show ?thesis using assms(1,2) by metis
qed

lemma READ_not_on_slash:
  assumes "s \<noteq> []" and "last s = CHR ''/''"
  shows "re_match READ_PATH_REGEX s = None"
proof (rule ccontr)
  assume "re_match READ_PATH_REGEX s \<noteq> None"
  then obtain g where "re_match READ_PATH_REGEX s = Some g" by auto
  then obtain X T I e where d: "s = X @ ''/'' @ T @ ''/'' @ I @ e"
    "\<forall>c\<in>set I. in_charset id_chars c" "1 \<le> length I" "e = [] \<or> e = [CHR 0x0A]"
    unfolding re_match_READ by blast
  from d(3) have I: "I \<noteq> []" by auto
  from d(4) show False
  proof
    assume "e = []"
    with d(1) have "s = (X @ ''/'' @ T @ ''/'') @ I" by simp
    with last_in_class_not_slash[OF d(2) slash_not_id I] assms(2) show False by metis
  next
    assume "e = [CHR 0x0A]"
    with d(1) have "s = (X @ ''/'' @ T @ ''/'' @ I) @ [CHR 0x0A]" by simp
    then have "last s = CHR 0x0A" by (metis last_snoc)
    with assms(2) show False by simp
  qed
qed

lemma VREAD_not_on_slash:
  assumes "s \<noteq> []" and "last s = CHR ''/''"
  shows "re_match VREAD_PATH_REGEX s = None"
proof (rule ccontr)
  assume "re_match VREAD_PATH_REGEX s \<noteq> None"
  then obtain g where "re_match VREAD_PATH_REGEX s = Some g" by auto
  then obtain X T I V e where d: "s = X @ ''/'' @ T @ ''/'' @ I @ ''/_history/'' @ V @ e"
    "\<forall>c\<in>set V. in_charset id_chars c" "1 \<le> length V" "e = [] \<or> e = [CHR 0x0A]"
    unfolding re_match_VREAD by blast
  from d(3) have V: "V \<noteq> []" by auto
  from d(4) show False
  proof
    assume "e = []"
    with d(1) have "s = (X @ ''/'' @ T @ ''/'' @ I @ ''/_history/'') @ V" by simp
    with last_in_class_not_slash[OF d(2) slash_not_id V] assms(2) show False by metis
  next
    assume "e = [CHR 0x0A]"
    with d(1) have "s = (X @ ''/'' @ T @ ''/'' @ I @ ''/_history/'' @ V) @ [CHR 0x0A]" by simp
    then have "last s = CHR 0x0A" by (metis last_snoc)
    with assms(2) show False by simp
  qed
qed

lemma SEARCH_POST_not_on_slash:
  assumes "s \<noteq> []" and "last s = CHR ''/''"
  shows "re_match SEARCH_TYPE_POST_PATH_REGEX s = None"
proof (rule ccontr)
  assume "re_match SEARCH_TYPE_POST_PATH_REGEX s \<noteq> None"
  then obtain g where "re_match SEARCH_TYPE_POST_PATH_REGEX s = Some g" by auto
  then obtain X T e where d: "s = X @ ''/'' @ T @ ''/_search'' @ e" "e = [] \<or> e = [CHR 0x0A]"
    unfolding re_match_SEARCH_POST by blast
  from d(2) show False
  proof
    assume "e = []"
    with d(1) have "s = (X @ ''/'' @ T @ ''/_searc'') @ [CHR ''h'']" by simp
    then have "last s = CHR ''h''" by (metis last_snoc)
    with assms(2) show False by simp
  next
    assume "e = [CHR 0x0A]"
    with d(1) have "s = (X @ ''/'' @ T @ ''/_search'') @ [CHR 0x0A]" by simp
    then have "last s = CHR 0x0A" by (metis last_snoc)
    with assms(2) show False by simp
  qed
qed

lemma CREATE_on_slash:
  assumes "s \<noteq> []" and "last s = CHR ''/''" and "re_match CREATE_PATH_REGEX s = Some g"
  shows "g = [(''resource_type'', [])]"
proof -
  from assms(3) obtain X T e where d: "s = X @ ''/'' @ T @ e"
    "\<forall>c\<in>set T. in_charset A_z c" "e = [] \<or> e = [CHR 0x0A]" "g = [(''resource_type'', T)]"
    unfolding re_match_CREATE by blast
  have "T = []"
  proof (rule ccontr)
    assume T: "T \<noteq> []"
    from d(3) show False
    proof
      assume "e = []"
      with d(1) have "s = (X @ ''/'') @ T" by simp
      with last_in_class_not_slash[OF d(2) slash_not_A_z T] assms(2) show False by metis
    next
      assume "e = [CHR 0x0A]"
      with d(1) have "s = (X @ ''/'' @ T) @ [CHR 0x0A]" by simp
      then have "last s = CHR 0x0A" by (metis last_snoc)
      with assms(2) show False by simp
    qed
  qed
  with d(4) show ?thesis by simp
qed

lemma from_match_empty_capture:
  "map_of g ''resource_type'' = Some [] \<Longrightarrow> InteractionInfo_from_match is_rt (Some g) k = None"
  by (simp add: InteractionInfo_from_match_def)

lemma from_match_CREATE_on_slash:
  assumes "s \<noteq> []" and "last s = CHR ''/''"
  shows "InteractionInfo_from_match is_rt (re_match CREATE_PATH_REGEX s) k = None"
proof (cases "re_match CREATE_PATH_REGEX s")
  case None
  then show ?thesis by (simp add: InteractionInfo_from_match_def)
next
  case (Some g)
  from CREATE_on_slash[OF assms Some] Some show ?thesis
    by (simp add: from_match_empty_capture)
qed

lemma from_match_None: "InteractionInfo_from_match is_rt None k = None"
  by (simp add: InteractionInfo_from_match_def)

lemma trailing_slash_classification:
  assumes p: "path \<noteq> []" "last path = CHR ''/''"
  shows "parse_fhir_request is_rt
         (Some \<lparr>request_method = method, request_url_path = path\<rparr>)
      = Inr (if method = ''GET'' \<and> (\<exists>X Y. path = X @ ''/metadata'' @ Y \<and> CHR 0x0A \<notin> set X)
             then \<lparr>resource_type = None, interaction_type = Some Capabilities,
                   resource_id = None, version_id = None\<rparr>
             else InteractionInfo_empty)"
proof -
  note facts = READ_not_on_slash[OF p] VREAD_not_on_slash[OF p] SEARCH_POST_not_on_slash[OF p]
    from_match_CREATE_on_slash[OF p] from_match_None other_regexes regexes_equal
  consider "method = ''GET''" | "method = ''POST''" | "method = ''PUT''" | "method = ''PATCH''"
    | "method = ''DELETE''"
    | "method \<notin> {''GET'', ''POST'', ''PUT'', ''PATCH'', ''DELETE''}"
    by blast
  then show "parse_fhir_request is_rt
         (Some \<lparr>request_method = method, request_url_path = path\<rparr>)
      = Inr (if method = ''GET'' \<and> (\<exists>X Y. path = X @ ''/metadata'' @ Y \<and> CHR 0x0A \<notin> set X)
             then \<lparr>resource_type = None, interaction_type = Some Capabilities,
                   resource_id = None, version_id = None\<rparr>
             else InteractionInfo_empty)"
  proof cases
    case 1
    show ?thesis
      unfolding 1 parse_GET re_match_METADATA[symmetric]
      by (simp add: facts capabilities_info_def)
  next
    case 2
    show ?thesis unfolding 2 parse_POST by (simp add: facts)
  next
    case 3
    show ?thesis unfolding 3 parse_PUT by (simp add: facts)
  next
    case 4
    show ?thesis unfolding 4 parse_PATCH by (simp add: facts)
  next
    case 5
    show ?thesis unfolding 5 parse_DELETE by (simp add: facts)
  next
    case 6
    then have "method \<noteq> ''GET''" by auto
    with parse_other_method[OF 6] show ?thesis by simp
  qed
qed

lemma metadata_anywhere:
  assumes "CHR 0x0A \<notin> set path"
  shows "(\<exists>X Y. path = X @ ''/metadata'' @ Y \<and> CHR 0x0A \<notin> set X)
       = (\<exists>X Y. path = X @ ''/metadata'' @ Y)"
proof
  assume "\<exists>X Y. path = X @ ''/metadata'' @ Y \<and> CHR 0x0A \<notin> set X"
  then show "\<exists>X Y. path = X @ ''/metadata'' @ Y" by blast
next
  assume "\<exists>X Y. path = X @ ''/metadata'' @ Y"
  then obtain X Y where e: "path = X @ ''/metadata'' @ Y" by blast
  from assms have "CHR 0x0A \<notin> set (X @ ''/metadata'' @ Y)" unfolding e .
  then have "CHR 0x0A \<notin> set X" by simp
  with e show "\<exists>X Y. path = X @ ''/metadata'' @ Y \<and> CHR 0x0A \<notin> set X" by blast
qed

text \<open>
  C10. A match whose resource type capture is the empty string is declined, whatever the
  oracle says of the empty string. So a request whose path ends in \<^verbatim>\<open>/\<close> is
  classified as the empty result, for every method, unless it is a \<^verbatim>\<open>GET\<close> whose path
  has \<^verbatim>\<open>/metadata\<close> somewhere, which is classified as capabilities. The path is the
  path of a request, without a newline.
\<close>

theorem trailing_slash_is_empty:
  "(map_of g ''resource_type'' = Some [] \<longrightarrow>
      InteractionInfo_from_match is_resource_type (Some g) k = None)
   \<and> (CHR 0x0A \<notin> set path \<and> path \<noteq> [] \<and> last path = CHR ''/'' \<longrightarrow>
      parse_fhir_request is_resource_type
         (Some \<lparr>request_method = method, request_url_path = path\<rparr>)
      = Inr (if method = ''GET'' \<and> (\<exists>X Y. path = X @ ''/metadata'' @ Y)
             then \<lparr>resource_type = None, interaction_type = Some Capabilities,
                   resource_id = None, version_id = None\<rparr>
             else InteractionInfo_empty))"
proof (intro conjI impI)
  assume "map_of g ''resource_type'' = Some []"
  then show "InteractionInfo_from_match is_resource_type (Some g) k = None"
    by (rule from_match_empty_capture)
next
  assume a: "CHR 0x0A \<notin> set path \<and> path \<noteq> [] \<and> last path = CHR ''/''"
  then have n: "CHR 0x0A \<notin> set path" and p: "path \<noteq> []" "last path = CHR ''/''"
    by blast+
  show "parse_fhir_request is_resource_type
         (Some \<lparr>request_method = method, request_url_path = path\<rparr>)
      = Inr (if method = ''GET'' \<and> (\<exists>X Y. path = X @ ''/metadata'' @ Y)
             then \<lparr>resource_type = None, interaction_type = Some Capabilities,
                   resource_id = None, version_id = None\<rparr>
             else InteractionInfo_empty)"
    unfolding metadata_anywhere[OF n, symmetric]
    by (rule trailing_slash_classification[OF p])
qed

theorem trailing_slash_is_empty_witness:
  "InteractionInfo_from_match (\<lambda>s. s = ''Patient'') (Some [(''resource_type'', [])]) Create = None
   \<and> parse_fhir_request (\<lambda>s. s = ''Patient'')
         (Some \<lparr>request_method = ''POST'', request_url_path = ''/Patient/''\<rparr>)
      = Inr InteractionInfo_empty"
proof -
  have 1: "map_of [(''resource_type'', [])] ''resource_type'' = Some ([] :: string)" by simp
  have 2: "CHR 0x0A \<notin> set ''/Patient/'' \<and> ''/Patient/'' \<noteq> [] \<and> last ''/Patient/'' = CHR ''/''"
    by simp
  have 3: "\<not> (''POST'' = ''GET'' \<and> (\<exists>X Y. ''/Patient/'' = X @ ''/metadata'' @ Y))" by simp
  note t = trailing_slash_is_empty[of "[(''resource_type'', [])]" "\<lambda>s. s = ''Patient''" Create
      "''/Patient/''" "''POST''"]
  from t[THEN conjunct1, rule_format, OF 1] t[THEN conjunct2, rule_format, OF 2] 3
  show ?thesis by (simp only: if_False simp_thms)
qed

section \<open>Rejected resource types\<close>

lemma from_match_rejected:
  assumes "\<forall>info t. InteractionInfo_from_match (\<lambda>_. True) m k = Some info \<longrightarrow>
     resource_type info = Some t \<longrightarrow> \<not> is_rt t"
  shows "InteractionInfo_from_match is_rt m k = None"
  using assms unfolding InteractionInfo_from_match_def
  by (auto split: option.splits)

lemma fake_read:
  "re_match READ_PATH_REGEX ''/FakeResource/123''
   = Some [(''resource_id'', ''123''), (''resource_type'', ''FakeResource'')]"
  by code_simp

lemma fake_metadata: "re_match METADATA_PATH_REGEX ''/FakeResource/123'' = None"
  by code_simp

lemma fake_vread: "re_match VREAD_PATH_REGEX ''/FakeResource/123'' = None"
  by code_simp

lemma fake_search: "re_match SEARCH_TYPE_GET_PATH_REGEX ''/FakeResource/123'' = None"
  by code_simp

lemma fake_matchers:
  "MetadataPathMatcher_match ''GET'' ''/FakeResource/123'' = Inr None"
  "ReadPathMatcher_match (\<lambda>_. True) ''GET'' ''/FakeResource/123''
     = Inr (Some \<lparr>resource_type = Some ''FakeResource'', interaction_type = Some Read,
                    resource_id = Some ''123'', version_id = None\<rparr>)"
  "VReadPathMatcher_match (\<lambda>_. True) ''GET'' ''/FakeResource/123'' = Inr None"
  "CreatePathMatcher_match (\<lambda>_. True) ''GET'' ''/FakeResource/123'' = Inr None"
  "SearchPathMatcher_match (\<lambda>_. True) ''GET'' ''/FakeResource/123'' = Inr None"
  "UpdatePathMatcher_match (\<lambda>_. True) ''GET'' ''/FakeResource/123'' = Inr None"
  "PatchPathMatcher_match (\<lambda>_. True) ''GET'' ''/FakeResource/123'' = Inr None"
  "DeletePathMatcher_match (\<lambda>_. True) ''GET'' ''/FakeResource/123'' = Inr None"
  by (simp_all add: matcher_defs fake_read fake_metadata fake_vread fake_search
      InteractionInfo_from_match_def)

lemma decline_Read:
  assumes "\<forall>info t. ReadPathMatcher_match (\<lambda>_. True) m p = Inr (Some info) \<longrightarrow>
     resource_type info = Some t \<longrightarrow> \<not> is_rt t"
  shows "ReadPathMatcher_match is_rt m p = Inr None"
proof (cases "m = ''GET''")
  case True
  with assms have "\<forall>info t. InteractionInfo_from_match (\<lambda>_. True)
      (re_match READ_PATH_REGEX p) Read = Some info \<longrightarrow> resource_type info = Some t \<longrightarrow> \<not> is_rt t"
    unfolding ReadPathMatcher_match_def by simp
  from from_match_rejected[OF this] True show ?thesis
    unfolding ReadPathMatcher_match_def by simp
next
  case False
  then show ?thesis unfolding ReadPathMatcher_match_def by simp
qed

lemma decline_VRead:
  assumes "\<forall>info t. VReadPathMatcher_match (\<lambda>_. True) m p = Inr (Some info) \<longrightarrow>
     resource_type info = Some t \<longrightarrow> \<not> is_rt t"
  shows "VReadPathMatcher_match is_rt m p = Inr None"
proof (cases "m = ''GET''")
  case True
  with assms have "\<forall>info t. InteractionInfo_from_match (\<lambda>_. True)
      (re_match VREAD_PATH_REGEX p) VRead = Some info \<longrightarrow> resource_type info = Some t \<longrightarrow> \<not> is_rt t"
    unfolding VReadPathMatcher_match_def by simp
  from from_match_rejected[OF this] True show ?thesis
    unfolding VReadPathMatcher_match_def by simp
next
  case False
  then show ?thesis unfolding VReadPathMatcher_match_def by simp
qed

lemma decline_Create:
  assumes "\<forall>info t. CreatePathMatcher_match (\<lambda>_. True) m p = Inr (Some info) \<longrightarrow>
     resource_type info = Some t \<longrightarrow> \<not> is_rt t"
  shows "CreatePathMatcher_match is_rt m p = Inr None"
proof (cases "m = ''POST''")
  case True
  with assms have "\<forall>info t. InteractionInfo_from_match (\<lambda>_. True)
      (re_match CREATE_PATH_REGEX p) Create = Some info \<longrightarrow> resource_type info = Some t \<longrightarrow> \<not> is_rt t"
    unfolding CreatePathMatcher_match_def by simp
  from from_match_rejected[OF this] True show ?thesis
    unfolding CreatePathMatcher_match_def by simp
next
  case False
  then show ?thesis unfolding CreatePathMatcher_match_def by simp
qed

lemma decline_Search:
  assumes "\<forall>info t. SearchPathMatcher_match (\<lambda>_. True) m p = Inr (Some info) \<longrightarrow>
     resource_type info = Some t \<longrightarrow> \<not> is_rt t"
  shows "SearchPathMatcher_match is_rt m p = Inr None"
proof -
  consider "m = ''GET''" | "m = ''POST''" | "m \<noteq> ''GET'' \<and> m \<noteq> ''POST''" by blast
  then show ?thesis
  proof cases
    case 1
    with assms have "\<forall>info t. InteractionInfo_from_match (\<lambda>_. True)
        (re_match SEARCH_TYPE_GET_PATH_REGEX p) SearchType = Some info \<longrightarrow>
        resource_type info = Some t \<longrightarrow> \<not> is_rt t"
      unfolding SearchPathMatcher_match_def by simp
    from from_match_rejected[OF this] 1 show ?thesis
      unfolding SearchPathMatcher_match_def by simp
  next
    case 2
    with assms have "\<forall>info t. InteractionInfo_from_match (\<lambda>_. True)
        (re_match SEARCH_TYPE_POST_PATH_REGEX p) SearchType = Some info \<longrightarrow>
        resource_type info = Some t \<longrightarrow> \<not> is_rt t"
      unfolding SearchPathMatcher_match_def by simp
    from from_match_rejected[OF this] 2 show ?thesis
      unfolding SearchPathMatcher_match_def by simp
  next
    case 3
    then show ?thesis unfolding SearchPathMatcher_match_def by simp
  qed
qed

lemma decline_Update:
  assumes "\<forall>info t. UpdatePathMatcher_match (\<lambda>_. True) m p = Inr (Some info) \<longrightarrow>
     resource_type info = Some t \<longrightarrow> \<not> is_rt t"
  shows "UpdatePathMatcher_match is_rt m p = Inr None"
proof (cases "m = ''PUT''")
  case True
  with assms have "\<forall>info t. InteractionInfo_from_match (\<lambda>_. True)
      (re_match UPDATE_PATH_REGEX p) Update = Some info \<longrightarrow> resource_type info = Some t \<longrightarrow> \<not> is_rt t"
    unfolding UpdatePathMatcher_match_def by simp
  from from_match_rejected[OF this] True show ?thesis
    unfolding UpdatePathMatcher_match_def by simp
next
  case False
  then show ?thesis unfolding UpdatePathMatcher_match_def by simp
qed

lemma decline_Patch:
  assumes "\<forall>info t. PatchPathMatcher_match (\<lambda>_. True) m p = Inr (Some info) \<longrightarrow>
     resource_type info = Some t \<longrightarrow> \<not> is_rt t"
  shows "PatchPathMatcher_match is_rt m p = Inr None"
proof (cases "m = ''PATCH''")
  case True
  with assms have "\<forall>info t. InteractionInfo_from_match (\<lambda>_. True)
      (re_match PATCH_PATH_REGEX p) Patch = Some info \<longrightarrow> resource_type info = Some t \<longrightarrow> \<not> is_rt t"
    unfolding PatchPathMatcher_match_def by simp
  from from_match_rejected[OF this] True show ?thesis
    unfolding PatchPathMatcher_match_def by simp
next
  case False
  then show ?thesis unfolding PatchPathMatcher_match_def by simp
qed

lemma decline_Delete:
  assumes "\<forall>info t. DeletePathMatcher_match (\<lambda>_. True) m p = Inr (Some info) \<longrightarrow>
     resource_type info = Some t \<longrightarrow> \<not> is_rt t"
  shows "DeletePathMatcher_match is_rt m p = Inr None"
proof (cases "m = ''DELETE''")
  case True
  with assms have "\<forall>info t. InteractionInfo_from_match (\<lambda>_. True)
      (re_match DELETE_PATH_REGEX p) Delete = Some info \<longrightarrow> resource_type info = Some t \<longrightarrow> \<not> is_rt t"
    unfolding DeletePathMatcher_match_def by simp
  from from_match_rejected[OF this] True show ?thesis
    unfolding DeletePathMatcher_match_def by simp
next
  case False
  then show ?thesis unfolding DeletePathMatcher_match_def by simp
qed

text \<open>
  C3, as the code has it. The candidate resource type of a matcher on a request is the one
  it reports under the oracle that accepts everything. When the metadata matcher declines
  and the oracle rejects the candidate of every matcher that has one, the classification is
  the empty result; so it is for \<^verbatim>\<open>GET /FakeResource/123\<close> under an oracle that
  rejects \<^verbatim>\<open>FakeResource\<close>.
\<close>

theorem rejected_candidates_give_empty:
  "(MetadataPathMatcher_match method path = Inr None
     \<and> (\<forall>matcher \<in> set (matchers (\<lambda>_. True)). \<forall>info t.
           matcher method path = Inr (Some info) \<longrightarrow> resource_type info = Some t
             \<longrightarrow> \<not> is_resource_type t)
     \<longrightarrow> parse_fhir_request is_resource_type
           (Some \<lparr>request_method = method, request_url_path = path\<rparr>)
         = Inr InteractionInfo_empty)
   \<and> (\<not> is_resource_type ''FakeResource''
     \<longrightarrow> parse_fhir_request is_resource_type
           (Some \<lparr>request_method = ''GET'', request_url_path = ''/FakeResource/123''\<rparr>)
         = Inr InteractionInfo_empty)"
proof (intro conjI impI)
  assume a: "MetadataPathMatcher_match method path = Inr None
     \<and> (\<forall>matcher \<in> set (matchers (\<lambda>_. True)). \<forall>info t.
           matcher method path = Inr (Some info) \<longrightarrow> resource_type info = Some t
             \<longrightarrow> \<not> is_resource_type t)"
  then have cap: "MetadataPathMatcher_match method path = Inr None"
    and rej: "\<forall>matcher \<in> set (matchers (\<lambda>_. True)). \<forall>info t.
           matcher method path = Inr (Some info) \<longrightarrow> resource_type info = Some t
             \<longrightarrow> \<not> is_resource_type t"
    by simp_all
  have mem: "ReadPathMatcher_match (\<lambda>_. True) \<in> set (matchers (\<lambda>_. True))"
    "VReadPathMatcher_match (\<lambda>_. True) \<in> set (matchers (\<lambda>_. True))"
    "CreatePathMatcher_match (\<lambda>_. True) \<in> set (matchers (\<lambda>_. True))"
    "SearchPathMatcher_match (\<lambda>_. True) \<in> set (matchers (\<lambda>_. True))"
    "UpdatePathMatcher_match (\<lambda>_. True) \<in> set (matchers (\<lambda>_. True))"
    "PatchPathMatcher_match (\<lambda>_. True) \<in> set (matchers (\<lambda>_. True))"
    "DeletePathMatcher_match (\<lambda>_. True) \<in> set (matchers (\<lambda>_. True))"
    by (simp_all add: matchers_def)
  note d = decline_Read[OF bspec[OF rej mem(1)]] decline_VRead[OF bspec[OF rej mem(2)]]
    decline_Create[OF bspec[OF rej mem(3)]] decline_Search[OF bspec[OF rej mem(4)]]
    decline_Update[OF bspec[OF rej mem(5)]] decline_Patch[OF bspec[OF rej mem(6)]]
    decline_Delete[OF bspec[OF rej mem(7)]]
  have "\<forall>f \<in> set (matchers is_resource_type). f method path = Inr None"
    by (simp add: matchers_def cap d)
  from first_match_all_decline[OF this]
  show "parse_fhir_request is_resource_type
           (Some \<lparr>request_method = method, request_url_path = path\<rparr>)
         = Inr InteractionInfo_empty"
    by (simp add: parse_fhir_request_def)
next
  assume "\<not> is_resource_type ''FakeResource''"
  then show "parse_fhir_request is_resource_type
           (Some \<lparr>request_method = ''GET'', request_url_path = ''/FakeResource/123''\<rparr>)
         = Inr InteractionInfo_empty"
    by (simp add: parse_GET fake_read fake_metadata fake_vread fake_search
        InteractionInfo_from_match_def)
qed

theorem rejected_candidates_give_empty_witness:
  "parse_fhir_request (\<lambda>s. s = ''Patient'')
           (Some \<lparr>request_method = ''GET'', request_url_path = ''/FakeResource/123''\<rparr>)
         = Inr InteractionInfo_empty"
proof -
  have 2: "\<forall>matcher \<in> set (matchers (\<lambda>_. True)). \<forall>info t.
           matcher ''GET'' ''/FakeResource/123'' = Inr (Some info) \<longrightarrow> resource_type info = Some t
             \<longrightarrow> \<not> (\<lambda>s. s = ''Patient'') t"
    unfolding matchers_def by (simp add: fake_matchers)
  show ?thesis
    using rejected_candidates_give_empty[of "''GET''" "''/FakeResource/123''"
        "\<lambda>s. s = ''Patient''"] fake_matchers(1) 2
    by blast
qed

text \<open>
  The claim C3 as the specification words it fails: on \<^verbatim>\<open>GET /FakeResource/Patient\<close>
  the read pattern matches and captures \<^verbatim>\<open>FakeResource\<close>, which the oracle rejects, and
  the request is still classified, as a search of \<^verbatim>\<open>Patient\<close>.
\<close>

theorem rejected_candidate_not_empty:
  "re_match READ_PATH_REGEX ''/FakeResource/Patient''
     = Some [(''resource_id'', ''Patient''), (''resource_type'', ''FakeResource'')]
   \<and> \<not> (\<lambda>s. s = ''Patient'') ''FakeResource''
   \<and> parse_fhir_request (\<lambda>s. s = ''Patient'')
        (Some \<lparr>request_method = ''GET'', request_url_path = ''/FakeResource/Patient''\<rparr>)
      = Inr \<lparr>resource_type = Some ''Patient'', interaction_type = Some SearchType,
             resource_id = None, version_id = None\<rparr>"
  by code_simp

section \<open>Mount paths\<close>

text \<open>
  A prefix without a newline in front of a path that a pattern matches leaves the match and
  its captures as they are: the lazy star takes the prefix as well.
\<close>

lemma READ_prefix:
  assumes "re_match READ_PATH_REGEX p = Some g" and "CHR 0x0A \<notin> set pre"
  shows "re_match READ_PATH_REGEX (pre @ p) = Some g"
proof -
  from assms(1) obtain X T I e where d: "p = X @ ''/'' @ T @ ''/'' @ I @ e" "CHR 0x0A \<notin> set X"
    "\<forall>c\<in>set T. in_charset A_z c"
    "\<forall>c\<in>set I. in_charset id_chars c" "1 \<le> length I" "length I \<le> 64"
    "e = [] \<or> e = [CHR 0x0A]" "g = [(''resource_id'', I), (''resource_type'', T)]"
    unfolding re_match_READ by blast
  have "pre @ p = (pre @ X) @ ''/'' @ T @ ''/'' @ I @ e" using d(1) by simp
  moreover have "CHR 0x0A \<notin> set (pre @ X)" using d(2) assms(2) by simp
  ultimately show ?thesis unfolding re_match_READ using d(3-8) by blast
qed

lemma VREAD_prefix:
  assumes "re_match VREAD_PATH_REGEX p = Some g" and "CHR 0x0A \<notin> set pre"
  shows "re_match VREAD_PATH_REGEX (pre @ p) = Some g"
proof -
  from assms(1) obtain X T I V e where
    d: "p = X @ ''/'' @ T @ ''/'' @ I @ ''/_history/'' @ V @ e" "CHR 0x0A \<notin> set X"
    "\<forall>c\<in>set T. in_charset A_z c"
    "\<forall>c\<in>set I. in_charset id_chars c" "1 \<le> length I" "length I \<le> 64"
    "\<forall>c\<in>set V. in_charset id_chars c" "1 \<le> length V" "length V \<le> 64"
    "e = [] \<or> e = [CHR 0x0A]"
    "g = [(''version_id'', V), (''resource_id'', I), (''resource_type'', T)]"
    unfolding re_match_VREAD by blast
  have "pre @ p = (pre @ X) @ ''/'' @ T @ ''/'' @ I @ ''/_history/'' @ V @ e"
    using d(1) by simp
  moreover have "CHR 0x0A \<notin> set (pre @ X)" using d(2) assms(2) by simp
  ultimately show ?thesis unfolding re_match_VREAD using d(3-11) by blast
qed

lemma CREATE_prefix:
  assumes "re_match CREATE_PATH_REGEX p = Some g" and "CHR 0x0A \<notin> set pre"
  shows "re_match CREATE_PATH_REGEX (pre @ p) = Some g"
proof -
  from assms(1) obtain X T e where d: "p = X @ ''/'' @ T @ e" "CHR 0x0A \<notin> set X"
    "\<forall>c\<in>set T. in_charset A_z c"
    "e = [] \<or> e = [CHR 0x0A]" "g = [(''resource_type'', T)]"
    unfolding re_match_CREATE by blast
  have "pre @ p = (pre @ X) @ ''/'' @ T @ e" using d(1) by simp
  moreover have "CHR 0x0A \<notin> set (pre @ X)" using d(2) assms(2) by simp
  ultimately show ?thesis unfolding re_match_CREATE using d(3-5) by blast
qed

lemma SEARCH_POST_prefix:
  assumes "re_match SEARCH_TYPE_POST_PATH_REGEX p = Some g" and "CHR 0x0A \<notin> set pre"
  shows "re_match SEARCH_TYPE_POST_PATH_REGEX (pre @ p) = Some g"
proof -
  from assms(1) obtain X T e where d: "p = X @ ''/'' @ T @ ''/_search'' @ e" "CHR 0x0A \<notin> set X"
    "\<forall>c\<in>set T. in_charset A_z c"
    "e = [] \<or> e = [CHR 0x0A]" "g = [(''resource_type'', T)]"
    unfolding re_match_SEARCH_POST by blast
  have "pre @ p = (pre @ X) @ ''/'' @ T @ ''/_search'' @ e" using d(1) by simp
  moreover have "CHR 0x0A \<notin> set (pre @ X)" using d(2) assms(2) by simp
  ultimately show ?thesis unfolding re_match_SEARCH_POST using d(3-5) by blast
qed

lemma METADATA_prefix:
  assumes "re_match METADATA_PATH_REGEX p \<noteq> None" and "CHR 0x0A \<notin> set pre"
  shows "re_match METADATA_PATH_REGEX (pre @ p) \<noteq> None"
proof -
  from assms(1) obtain X Y where d: "p = X @ ''/metadata'' @ Y" "CHR 0x0A \<notin> set X"
    unfolding re_match_METADATA by blast
  have "pre @ p = (pre @ X) @ ''/metadata'' @ Y" using d(1) by simp
  moreover have "CHR 0x0A \<notin> set (pre @ X)" using d(2) assms(2) by simp
  ultimately show ?thesis unfolding re_match_METADATA by blast
qed

lemma history_in_A_z: "\<forall>c\<in>set ''_history''. in_charset A_z c"
  by (simp add: in_A_z)

lemma search_in_A_z: "\<forall>c\<in>set ''_search''. in_charset A_z c"
  by (simp add: in_A_z)

lemma VREAD_gives_READ:
  assumes "re_match VREAD_PATH_REGEX p = Some g"
  shows "\<exists>g'. re_match READ_PATH_REGEX p = Some g'"
proof -
  from assms(1) obtain X T I V e where
    d: "p = X @ ''/'' @ T @ ''/'' @ I @ ''/_history/'' @ V @ e" "CHR 0x0A \<notin> set X"
    "\<forall>c\<in>set T. in_charset A_z c"
    "\<forall>c\<in>set I. in_charset id_chars c"
    "\<forall>c\<in>set V. in_charset id_chars c" "1 \<le> length V" "length V \<le> 64"
    "e = [] \<or> e = [CHR 0x0A]"
    unfolding re_match_VREAD by blast
  have 1: "p = (X @ ''/'' @ T @ ''/'' @ I) @ ''/'' @ ''_history'' @ ''/'' @ V @ e"
    using d(1) by simp
  have 2: "CHR 0x0A \<notin> set (X @ ''/'' @ T @ ''/'' @ I)"
    using d(2) A_z_no_nl[OF d(3)] id_no_nl[OF d(4)] by simp
  have "re_match READ_PATH_REGEX p
      = Some [(''resource_id'', V), (''resource_type'', ''_history'')]"
    unfolding re_match_READ using 1 2 history_in_A_z d(5-8) by blast
  then show ?thesis by blast
qed

lemma SEARCH_POST_gives_CREATE:
  assumes "re_match SEARCH_TYPE_POST_PATH_REGEX p = Some g"
  shows "\<exists>g'. re_match CREATE_PATH_REGEX p = Some g'"
proof -
  from assms(1) obtain X T e where
    d: "p = X @ ''/'' @ T @ ''/_search'' @ e" "CHR 0x0A \<notin> set X"
    "\<forall>c\<in>set T. in_charset A_z c" "e = [] \<or> e = [CHR 0x0A]"
    unfolding re_match_SEARCH_POST by blast
  have 1: "p = (X @ ''/'' @ T) @ ''/'' @ ''_search'' @ e"
    using d(1) by simp
  have 2: "CHR 0x0A \<notin> set (X @ ''/'' @ T)"
    using d(2) A_z_no_nl[OF d(3)] by simp
  have "re_match CREATE_PATH_REGEX p = Some [(''resource_type'', ''_search'')]"
    unfolding re_match_CREATE using 1 2 search_in_A_z d(4) by blast
  then show ?thesis by blast
qed

text \<open>What a prefix does to a matcher's answer on a path.\<close>

lemma from_match_prefix:
  assumes "InteractionInfo_from_match is_rt (re_match R p) k = Some r"
    and "\<And>g. re_match R p = Some g \<Longrightarrow> re_match R (pre @ p) = Some g"
  shows "InteractionInfo_from_match is_rt (re_match R (pre @ p)) k = Some r"
proof -
  from from_match_Some[OF assms(1)] obtain g where "re_match R p = Some g" by blast
  with assms show ?thesis by simp
qed

lemma from_match_prefix_same:
  assumes "re_match R p = Some g" and "re_match R (pre @ p) = Some g"
  shows "InteractionInfo_from_match is_rt (re_match R (pre @ p)) k
       = InteractionInfo_from_match is_rt (re_match R p) k"
  using assms by simp

lemma metadata_declines:
  "MetadataPathMatcher_match ''GET'' p = Inr None \<longleftrightarrow> re_match METADATA_PATH_REGEX p = None"
  by (simp add: MetadataPathMatcher_match_def)

lemma from_match_kind: 
  "InteractionInfo_from_match is_rt m k = Some r \<Longrightarrow> interaction_type r = Some k"
  by (drule from_match_Some) auto

text \<open>
  C2, as the code has it. Let a request be classified as a result \<open>r\<close> that is not the
  empty one, and let \<open>mount\<close> be any prefix without a newline (a sequence of segments
  \<^verbatim>\<open>/s1/s2...\<close> is one). For every method but \<^verbatim>\<open>GET\<close> the request with the
  prefixed path is classified as \<open>r\<close> again. For \<^verbatim>\<open>GET\<close> it is, provided that
  the matchers tried before the one that gave \<open>r\<close> still decline: the metadata matcher
  unless \<open>r\<close> is the capabilities result, and the read and vread matchers when \<open>r\<close> is a
  search result.
\<close>

theorem mount_path_invariance:
  assumes res: "parse_fhir_request is_resource_type
        (Some \<lparr>request_method = method, request_url_path = p\<rparr>) = Inr r"
    and ne: "r \<noteq> InteractionInfo_empty"
    and nl: "CHR 0x0A \<notin> set mount"
    and cap: "method = ''GET'' \<and> interaction_type r \<noteq> Some Capabilities \<longrightarrow>
        MetadataPathMatcher_match ''GET'' (mount @ p) = Inr None"
    and srch: "method = ''GET'' \<and> interaction_type r = Some SearchType \<longrightarrow>
        ReadPathMatcher_match is_resource_type ''GET'' (mount @ p) = Inr None
        \<and> VReadPathMatcher_match is_resource_type ''GET'' (mount @ p) = Inr None"
  shows "parse_fhir_request is_resource_type
        (Some \<lparr>request_method = method, request_url_path = mount @ p\<rparr>) = Inr r"
proof -
  consider (GET) "method = ''GET''" | (POST) "method = ''POST''" | (PUT) "method = ''PUT''"
    | (PATCH) "method = ''PATCH''" | (DELETE) "method = ''DELETE''"
    | (other) "method \<notin> {''GET'', ''POST'', ''PUT'', ''PATCH'', ''DELETE''}"
    by blast
  then show ?thesis
  proof cases
    case GET
    let ?a = "InteractionInfo_from_match is_resource_type (re_match READ_PATH_REGEX p) Read"
    let ?b = "InteractionInfo_from_match is_resource_type (re_match VREAD_PATH_REGEX p) VRead"
    let ?c = "InteractionInfo_from_match is_resource_type
                (re_match SEARCH_TYPE_GET_PATH_REGEX p) SearchType"
    let ?a' = "InteractionInfo_from_match is_resource_type
                (re_match READ_PATH_REGEX (mount @ p)) Read"
    let ?b' = "InteractionInfo_from_match is_resource_type
                (re_match VREAD_PATH_REGEX (mount @ p)) VRead"
    let ?c' = "InteractionInfo_from_match is_resource_type
                (re_match SEARCH_TYPE_GET_PATH_REGEX (mount @ p)) SearchType"
    from res have r: "r = (if re_match METADATA_PATH_REGEX p \<noteq> None then capabilities_info
          else case ?a of Some x \<Rightarrow> x | None \<Rightarrow>
            (case ?b of Some x \<Rightarrow> x | None \<Rightarrow>
              (case ?c of Some x \<Rightarrow> x | None \<Rightarrow> InteractionInfo_empty)))"
      unfolding GET parse_GET by simp
    show ?thesis
    proof (cases "re_match METADATA_PATH_REGEX p \<noteq> None")
      case True
      with r have "r = capabilities_info" by simp
      moreover from METADATA_prefix[OF True nl]
      have "re_match METADATA_PATH_REGEX (mount @ p) \<noteq> None" .
      ultimately show ?thesis unfolding GET parse_GET by simp
    next
      case noM: False
      with r have r2: "r = (case ?a of Some x \<Rightarrow> x | None \<Rightarrow>
            (case ?b of Some x \<Rightarrow> x | None \<Rightarrow>
              (case ?c of Some x \<Rightarrow> x | None \<Rightarrow> InteractionInfo_empty)))"
        by simp
      show ?thesis
      proof (cases ?a)
        case (Some x)
        with r2 have rx: "r = x" by simp
        from from_match_kind[OF Some] rx have "interaction_type r \<noteq> Some Capabilities" by simp
        with cap GET have M': "re_match METADATA_PATH_REGEX (mount @ p) = None"
          by (simp add: metadata_declines)
        from from_match_prefix[OF Some READ_prefix[OF _ nl]]
        have "?a' = Some x" by simp
        with M' rx show ?thesis unfolding GET parse_GET by simp
      next
        case aN: None
        show ?thesis
        proof (cases ?b)
          case (Some x)
          with r2 aN have rx: "r = x" by simp
          from from_match_kind[OF Some] rx have "interaction_type r \<noteq> Some Capabilities"
            by simp
          with cap GET have M': "re_match METADATA_PATH_REGEX (mount @ p) = None"
            by (simp add: metadata_declines)
          from from_match_Some[OF Some] obtain g where g: "re_match VREAD_PATH_REGEX p = Some g"
            by blast
          from VREAD_gives_READ[OF g] obtain g' where g': "re_match READ_PATH_REGEX p = Some g'"
            by blast
          from READ_prefix[OF g' nl] g' aN have a': "?a' = None" by simp
          from from_match_prefix[OF Some VREAD_prefix[OF _ nl]]
          have "?b' = Some x" by simp
          with M' a' rx show ?thesis unfolding GET parse_GET by simp
        next
          case bN: None
          show ?thesis
          proof (cases ?c)
            case (Some x)
            with r2 aN bN have rx: "r = x" by simp
            from from_match_kind[OF Some] rx have k: "interaction_type r = Some SearchType"
              by simp
            then have "interaction_type r \<noteq> Some Capabilities" by simp
            with cap GET have M': "re_match METADATA_PATH_REGEX (mount @ p) = None"
              by (simp add: metadata_declines)
            from srch GET k have a': "?a' = None" and b': "?b' = None"
              by (simp_all add: ReadPathMatcher_match_def VReadPathMatcher_match_def)
            from Some have "InteractionInfo_from_match is_resource_type
                (re_match CREATE_PATH_REGEX p) SearchType = Some x"
              by (simp add: other_regexes)
            from from_match_prefix[OF this CREATE_prefix[OF _ nl]]
            have "?c' = Some x" by (simp add: other_regexes)
            with M' a' b' rx show ?thesis unfolding GET parse_GET by simp
          next
            case None
            with r2 aN bN ne show ?thesis by simp
          qed
        qed
      qed
    qed
  next
    case POST
    let ?a = "InteractionInfo_from_match is_resource_type (re_match CREATE_PATH_REGEX p) Create"
    let ?b = "InteractionInfo_from_match is_resource_type
                (re_match SEARCH_TYPE_POST_PATH_REGEX p) SearchType"
    let ?a' = "InteractionInfo_from_match is_resource_type
                (re_match CREATE_PATH_REGEX (mount @ p)) Create"
    let ?b' = "InteractionInfo_from_match is_resource_type
                (re_match SEARCH_TYPE_POST_PATH_REGEX (mount @ p)) SearchType"
    from res have r: "r = (case ?a of Some x \<Rightarrow> x | None \<Rightarrow>
            (case ?b of Some x \<Rightarrow> x | None \<Rightarrow> InteractionInfo_empty))"
      unfolding POST parse_POST by simp
    show ?thesis
    proof (cases ?a)
      case (Some x)
      with r have rx: "r = x" by simp
      from from_match_prefix[OF Some CREATE_prefix[OF _ nl]]
      have "?a' = Some x" by simp
      with rx show ?thesis unfolding POST parse_POST by simp
    next
      case aN: None
      show ?thesis
      proof (cases ?b)
        case (Some x)
        with r aN have rx: "r = x" by simp
        from from_match_Some[OF Some] obtain g
          where g: "re_match SEARCH_TYPE_POST_PATH_REGEX p = Some g"
          by blast
        from SEARCH_POST_gives_CREATE[OF g] obtain g'
          where g': "re_match CREATE_PATH_REGEX p = Some g'"
          by blast
        from CREATE_prefix[OF g' nl] g' aN have a': "?a' = None" by simp
        from from_match_prefix[OF Some SEARCH_POST_prefix[OF _ nl]]
        have "?b' = Some x" by simp
        with a' rx show ?thesis unfolding POST parse_POST by simp
      next
        case None
        with r aN ne show ?thesis by simp
      qed
    qed
  next
    case PUT
    let ?a = "InteractionInfo_from_match is_resource_type (re_match UPDATE_PATH_REGEX p) Update"
    from res have r: "r = (case ?a of Some x \<Rightarrow> x | None \<Rightarrow> InteractionInfo_empty)"
      unfolding PUT parse_PUT by simp
    show ?thesis
    proof (cases ?a)
      case (Some x)
      with r have rx: "r = x" by simp
      from Some have "InteractionInfo_from_match is_resource_type
          (re_match READ_PATH_REGEX p) Update = Some x"
        by (simp add: other_regexes)
      from from_match_prefix[OF this READ_prefix[OF _ nl]] rx
      show ?thesis unfolding PUT parse_PUT by (simp add: other_regexes)
    next
      case None
      with r ne show ?thesis by simp
    qed
  next
    case PATCH
    let ?a = "InteractionInfo_from_match is_resource_type (re_match PATCH_PATH_REGEX p) Patch"
    from res have r: "r = (case ?a of Some x \<Rightarrow> x | None \<Rightarrow> InteractionInfo_empty)"
      unfolding PATCH parse_PATCH by simp
    show ?thesis
    proof (cases ?a)
      case (Some x)
      with r have rx: "r = x" by simp
      from Some have "InteractionInfo_from_match is_resource_type
          (re_match READ_PATH_REGEX p) Patch = Some x"
        by (simp add: other_regexes regexes_equal)
      from from_match_prefix[OF this READ_prefix[OF _ nl]] rx
      show ?thesis unfolding PATCH parse_PATCH by (simp add: other_regexes regexes_equal)
    next
      case None
      with r ne show ?thesis by simp
    qed
  next
    case DELETE
    let ?a = "InteractionInfo_from_match is_resource_type (re_match DELETE_PATH_REGEX p) Delete"
    from res have r: "r = (case ?a of Some x \<Rightarrow> x | None \<Rightarrow> InteractionInfo_empty)"
      unfolding DELETE parse_DELETE by simp
    show ?thesis
    proof (cases ?a)
      case (Some x)
      with r have rx: "r = x" by simp
      from Some have "InteractionInfo_from_match is_resource_type
          (re_match READ_PATH_REGEX p) Delete = Some x"
        by (simp add: other_regexes regexes_equal)
      from from_match_prefix[OF this READ_prefix[OF _ nl]] rx
      show ?thesis unfolding DELETE parse_DELETE by (simp add: other_regexes regexes_equal)
    next
      case None
      with r ne show ?thesis by simp
    qed
  next
    case other
    from parse_other_method[OF other] res ne show ?thesis by simp
  qed
qed

theorem mount_path_invariance_witness:
  "parse_fhir_request (\<lambda>s. s = ''Patient'')
     (Some \<lparr>request_method = ''GET'', request_url_path = ''/subapi'' @ ''/Patient''\<rparr>)
   = Inr \<lparr>resource_type = Some ''Patient'', interaction_type = Some SearchType,
          resource_id = None, version_id = None\<rparr>"
proof -
  have 1: "parse_fhir_request (\<lambda>s. s = ''Patient'')
     (Some \<lparr>request_method = ''GET'', request_url_path = ''/Patient''\<rparr>)
   = Inr \<lparr>resource_type = Some ''Patient'', interaction_type = Some SearchType,
          resource_id = None, version_id = None\<rparr>"
    by code_simp
  have 2: "\<lparr>resource_type = Some ''Patient'', interaction_type = Some SearchType,
          resource_id = None, version_id = None\<rparr> \<noteq> InteractionInfo_empty"
    by (simp add: InteractionInfo_empty_def)
  have 3: "CHR 0x0A \<notin> set ''/subapi''" by simp
  have 4: "MetadataPathMatcher_match ''GET'' (''/subapi'' @ ''/Patient'') = Inr None"
    by code_simp
  have 5: "ReadPathMatcher_match (\<lambda>s. s = ''Patient'') ''GET'' (''/subapi'' @ ''/Patient'')
      = Inr None"
    by code_simp
  have 6: "VReadPathMatcher_match (\<lambda>s. s = ''Patient'') ''GET'' (''/subapi'' @ ''/Patient'')
      = Inr None"
    by code_simp
  show ?thesis
    by (rule mount_path_invariance[OF 1 2 3]) (simp_all only: 4 5 6 simp_thms)
qed

text \<open>
  The claim C2 as the specification words it fails: \<^verbatim>\<open>GET /Patient\<close> is a search of
  \<^verbatim>\<open>Patient\<close>, and behind the one-segment prefix \<^verbatim>\<open>/Patient\<close> it is a read of
  the \<^verbatim>\<open>Patient\<close> with id \<^verbatim>\<open>Patient\<close>.
\<close>

theorem mount_prefix_changes_result:
  "parse_fhir_request (\<lambda>s. s = ''Patient'')
     (Some \<lparr>request_method = ''GET'', request_url_path = ''/Patient''\<rparr>)
   = Inr \<lparr>resource_type = Some ''Patient'', interaction_type = Some SearchType,
          resource_id = None, version_id = None\<rparr>
   \<and> parse_fhir_request (\<lambda>s. s = ''Patient'')
     (Some \<lparr>request_method = ''GET'', request_url_path = ''/Patient'' @ ''/Patient''\<rparr>)
   = Inr \<lparr>resource_type = Some ''Patient'', interaction_type = Some Read,
          resource_id = Some ''Patient'', version_id = None\<rparr>"
  by code_simp

section \<open>The captures of a result\<close>

text \<open>
  What holds of C7: every result carries well-formed ids, and a resource type made of
  characters between \<^verbatim>\<open>A\<close> and \<^verbatim>\<open>z\<close>.
\<close>

lemma wf_READ:
  assumes "InteractionInfo_from_match is_rt (re_match READ_PATH_REGEX p) k = Some r"
  shows "well_formed_info r"
proof -
  from from_match_Some[OF assms] obtain g t where g: "re_match READ_PATH_REGEX p = Some g"
    "r = \<lparr>resource_type = Some t, interaction_type = Some k,
          resource_id = map_of g ''resource_id'', version_id = map_of g ''version_id''\<rparr>"
    "map_of g ''resource_type'' = Some t"
    by blast
  from g(1) obtain T I where "g = [(''resource_id'', I), (''resource_type'', T)]"
    "\<forall>c\<in>set T. in_charset A_z c"
    "\<forall>c\<in>set I. in_charset id_chars c" "1 \<le> length I" "length I \<le> 64"
    unfolding re_match_READ by blast
  with g(2,3) show ?thesis
    by (simp add: well_formed_info_def well_formed_id_def list_all_iff)
qed

lemma wf_VREAD:
  assumes "InteractionInfo_from_match is_rt (re_match VREAD_PATH_REGEX p) k = Some r"
  shows "well_formed_info r"
proof -
  from from_match_Some[OF assms] obtain g t where g: "re_match VREAD_PATH_REGEX p = Some g"
    "r = \<lparr>resource_type = Some t, interaction_type = Some k,
          resource_id = map_of g ''resource_id'', version_id = map_of g ''version_id''\<rparr>"
    "map_of g ''resource_type'' = Some t"
    by blast
  from g(1) obtain T I V where
    "g = [(''version_id'', V), (''resource_id'', I), (''resource_type'', T)]"
    "\<forall>c\<in>set T. in_charset A_z c"
    "\<forall>c\<in>set I. in_charset id_chars c" "1 \<le> length I" "length I \<le> 64"
    "\<forall>c\<in>set V. in_charset id_chars c" "1 \<le> length V" "length V \<le> 64"
    unfolding re_match_VREAD by blast
  with g(2,3) show ?thesis
    by (simp add: well_formed_info_def well_formed_id_def list_all_iff)
qed

lemma wf_CREATE:
  assumes "InteractionInfo_from_match is_rt (re_match CREATE_PATH_REGEX p) k = Some r"
  shows "well_formed_info r"
proof -
  from from_match_Some[OF assms] obtain g t where g: "re_match CREATE_PATH_REGEX p = Some g"
    "r = \<lparr>resource_type = Some t, interaction_type = Some k,
          resource_id = map_of g ''resource_id'', version_id = map_of g ''version_id''\<rparr>"
    "map_of g ''resource_type'' = Some t"
    by blast
  from g(1) obtain T where "g = [(''resource_type'', T)]" "\<forall>c\<in>set T. in_charset A_z c"
    unfolding re_match_CREATE by blast
  with g(2,3) show ?thesis
    by (simp add: well_formed_info_def well_formed_id_def list_all_iff)
qed

lemma wf_SEARCH_POST:
  assumes "InteractionInfo_from_match is_rt (re_match SEARCH_TYPE_POST_PATH_REGEX p) k = Some r"
  shows "well_formed_info r"
proof -
  from from_match_Some[OF assms] obtain g t
    where g: "re_match SEARCH_TYPE_POST_PATH_REGEX p = Some g"
    "r = \<lparr>resource_type = Some t, interaction_type = Some k,
          resource_id = map_of g ''resource_id'', version_id = map_of g ''version_id''\<rparr>"
    "map_of g ''resource_type'' = Some t"
    by blast
  from g(1) obtain T where "g = [(''resource_type'', T)]" "\<forall>c\<in>set T. in_charset A_z c"
    unfolding re_match_SEARCH_POST by blast
  with g(2,3) show ?thesis
    by (simp add: well_formed_info_def well_formed_id_def list_all_iff)
qed

lemma wf_matcher:
  assumes "f \<in> set (matchers is_rt)" and "f m p = Inr (Some r)"
  shows "well_formed_info r"
proof -
  from assms(1) consider "f = MetadataPathMatcher_match" | "f = ReadPathMatcher_match is_rt"
    | "f = VReadPathMatcher_match is_rt" | "f = CreatePathMatcher_match is_rt"
    | "f = SearchPathMatcher_match is_rt" | "f = UpdatePathMatcher_match is_rt"
    | "f = PatchPathMatcher_match is_rt" | "f = DeletePathMatcher_match is_rt"
    unfolding matchers_def by auto
  then show ?thesis
  proof cases
    case 1
    with assms(2) have "r = capabilities_info"
      by (simp add: MetadataPathMatcher_match_def capabilities_info_def split: if_splits)
    then show ?thesis by (simp add: well_formed_info_def capabilities_info_def)
  next
    case 2
    with assms(2) show ?thesis
      by (auto simp: ReadPathMatcher_match_def split: if_splits intro: wf_READ)
  next
    case 3
    with assms(2) show ?thesis
      by (auto simp: VReadPathMatcher_match_def split: if_splits intro: wf_VREAD)
  next
    case 4
    with assms(2) show ?thesis
      by (auto simp: CreatePathMatcher_match_def split: if_splits intro: wf_CREATE)
  next
    case 5
    with assms(2) show ?thesis
      by (auto simp: SearchPathMatcher_match_def other_regexes split: if_splits
          intro: wf_CREATE wf_SEARCH_POST)
  next
    case 6
    with assms(2) show ?thesis
      by (auto simp: UpdatePathMatcher_match_def other_regexes split: if_splits intro: wf_READ)
  next
    case 7
    with assms(2) show ?thesis
      by (auto simp: PatchPathMatcher_match_def other_regexes regexes_equal split: if_splits
          intro: wf_READ)
  next
    case 8
    with assms(2) show ?thesis
      by (auto simp: DeletePathMatcher_match_def other_regexes regexes_equal split: if_splits
          intro: wf_READ)
  qed
qed

lemma captures_well_formed:
  assumes "parse_fhir_request is_rt req = Inr r"
  shows "well_formed_info r"
proof (cases req)
  case None
  with assms show ?thesis
    by (auto simp: parse_fhir_request_def well_formed_info_def InteractionInfo_empty_def)
next
  case (Some rq)
  with assms
  have "first_match (matchers is_rt) (request_method rq) (request_url_path rq) = Inr r"
    by (simp add: parse_fhir_request_def)
  from first_match_cases[OF this] show ?thesis
  proof
    assume "r = InteractionInfo_empty"
    then show ?thesis by (simp add: well_formed_info_def InteractionInfo_empty_def)
  next
    assume "\<exists>f\<in>set (matchers is_rt). f (request_method rq) (request_url_path rq) = Inr (Some r)"
    then show ?thesis using wf_matcher by blast
  qed
qed

text \<open>
  C7: the class \<^verbatim>\<open>[A-z]\<close> of the resource type is wider than the ASCII letters. On
  \<^verbatim>\<open>/Patient/123/_history/1\<close> the read pattern captures \<^verbatim>\<open>_history\<close> as the
  resource type, and with an oracle that accepts \<^verbatim>\<open>A_b\<close> the result of
  \<^verbatim>\<open>POST /A_b\<close> carries it.
\<close>

theorem resource_type_capture_not_letters:
  "re_match READ_PATH_REGEX ''/Patient/123/_history/1''
     = Some [(''resource_id'', ''1''), (''resource_type'', ''_history'')]
   \<and> in_charset A_z CHR ''_''
   \<and> \<not> in_charset (InSet [(CHR ''A'', CHR ''Z''), (CHR ''a'', CHR ''z'')]) CHR ''_''
   \<and> parse_fhir_request (\<lambda>s. s = ''A_b'')
        (Some \<lparr>request_method = ''POST'', request_url_path = ''/A_b''\<rparr>)
      = Inr \<lparr>resource_type = Some ''A_b'', interaction_type = Some Create,
             resource_id = None, version_id = None\<rparr>"
  by code_simp

end
